theory Spec2Isabelle
  imports Main
begin

section \<open>The catalog store\<close>

text \<open>
  The library application keeps three SQLite tables (\<^verbatim>\<open>app/database.py\<close>, \<^verbatim>\<open>init_db\<close>):
  \<^verbatim>\<open>users\<close>, \<^verbatim>\<open>books\<close> and \<^verbatim>\<open>checkouts\<close>. A table is modelled as the list of
  its rows in the store's scan order; a nullable column is an \<open>option\<close>.

  The code writes every timestamp as text of the form \<^verbatim>\<open>%Y-%m-%d %H:%M:%S\<close> and the
  store compares such texts as strings. For this fixed-width format the string order is
  the order of the instants written, so a timestamp is modelled as the number of seconds
  the text denotes; \<^verbatim>\<open>timedelta(days=7)\<close> is then \<open>604800\<close>.

  Two clocks write timestamps. \<^verbatim>\<open>datetime.now()\<close> is the server's local wall clock;
  the column default \<^verbatim>\<open>CURRENT_TIMESTAMP\<close> is evaluated by SQLite and is UTC. Every
  handler that reads a clock takes the reading as a parameter: \<open>now\<close> for
  \<^verbatim>\<open>datetime.now()\<close> (cut to whole seconds by \<^verbatim>\<open>strftime\<close>) and \<open>current_timestamp\<close>
  for the store's default.
\<close>

type_synonym timestamp = int

record user =
  user_id :: int
  username :: string
  password :: string
  created_at :: "timestamp option"

record book =
  book_id :: int
  isbn :: "string option"
  title :: string
  author :: string
  year_published :: "int option"
  genre :: "string option"
  image_url :: "string option"
  is_booked :: "int option"
  booked_by_user_id :: "int option"
  due_date :: "timestamp option"

text \<open>
  The columns \<^verbatim>\<open>book_id\<close>, \<^verbatim>\<open>user_id\<close> and \<^verbatim>\<open>due_date\<close> of \<^verbatim>\<open>checkouts\<close> carry
  the prefix \<open>co_\<close> here, since a field name belongs to one record type only.
\<close>

record checkout =
  checkout_id :: int
  co_book_id :: int
  co_user_id :: int
  checkout_date :: "timestamp option"
  return_date :: "timestamp option"
  co_due_date :: timestamp
  is_returned :: int

text \<open>
  \<open>users_seq\<close> and \<open>checkouts_seq\<close> are the rows of \<^verbatim>\<open>sqlite_sequence\<close> that
  \<^verbatim>\<open>AUTOINCREMENT\<close> maintains: the largest key ever handed out in the table.
\<close>

record db =
  users :: "user list"
  books :: "book list"
  checkouts :: "checkout list"
  users_seq :: int
  checkouts_seq :: int

text \<open>
  The key of an inserted row under \<^verbatim>\<open>INTEGER PRIMARY KEY AUTOINCREMENT\<close>: one more than
  the largest of the recorded sequence value and the keys present.
\<close>

definition next_rowid :: "int \<Rightarrow> int list \<Rightarrow> int" where
  "next_rowid seq ids = foldr max ids seq + 1"

subsection \<open>Responses\<close>

text \<open>
  A handler returns \<^verbatim>\<open>jsonify(body), status\<close>. The bodies the handlers build are the
  constructors of \<open>payload\<close>, with the values of their keys in the order of the source.
\<close>

datatype payload =
  ErrorBody string
| UnavailableBody string string "timestamp option"
| CheckedOutBody string int int int timestamp
| ReturnedBody string int int timestamp
| MessageBody string
| UserBody string int string
| BookBody string book

type_synonym response = "nat \<times> payload"

definition seven_days :: int where
  "seven_days = 7 * 24 * 60 * 60"

section \<open>Checkout routes (\<^verbatim>\<open>app/routes/checkouts.py\<close>)\<close>

text \<open>
  The JSON body of \<^verbatim>\<open>POST /api/checkouts\<close>; \<open>None\<close> is a key that is not in the body.
\<close>

record checkout_request =
  req_book_id :: "int option"
  req_user_id :: "int option"

text \<open>The body \<^verbatim>\<open>{"book_id": bid, "user_id": uid}\<close>.\<close>

definition request :: "int \<Rightarrow> int \<Rightarrow> checkout_request" where
  "request bid uid = \<lparr>req_book_id = Some bid, req_user_id = Some uid\<rparr>"

definition checkout_book ::
  "timestamp \<Rightarrow> timestamp \<Rightarrow> checkout_request \<Rightarrow> db \<Rightarrow> response \<times> db" where
  "checkout_book now current_timestamp data st =
    (case (req_book_id data, req_user_id data) of
       (Some bid, Some uid) \<Rightarrow>
         (case find (\<lambda>u. user_id u = uid) (users st) of
            None \<Rightarrow> ((404, ErrorBody ''User not found''), st)
          | Some _ \<Rightarrow>
              (case find (\<lambda>b. book_id b = bid) (books st) of
                 None \<Rightarrow> ((404, ErrorBody ''Book not found''), st)
               | Some bk \<Rightarrow>
                   if is_booked bk = Some 1 then
                     ((409, UnavailableBody ''Book is not available''
                         ''This book is currently checked out by another user''
                         (due_date bk)), st)
                   else
                     let due = now + seven_days;
                         books' = map (\<lambda>b. if book_id b = bid
                                    then b\<lparr>is_booked := Some 1, booked_by_user_id := Some uid,
                                           due_date := Some due\<rparr>
                                    else b) (books st);
                         cid = next_rowid (checkouts_seq st) (map checkout_id (checkouts st));
                         row = \<lparr>checkout_id = cid, co_book_id = bid, co_user_id = uid,
                                checkout_date = Some current_timestamp, return_date = None,
                                co_due_date = due, is_returned = 0\<rparr>
                     in ((201, CheckedOutBody ''Book checked out successfully'' cid bid uid due),
                         st\<lparr>books := books', checkouts := checkouts st @ [row],
                            checkouts_seq := cid\<rparr>)))
     | _ \<Rightarrow> ((400, ErrorBody ''book_id and user_id are required''), st))"

definition return_book :: "timestamp \<Rightarrow> int \<Rightarrow> db \<Rightarrow> response \<times> db" where
  "return_book now cid st =
    (case find (\<lambda>c. checkout_id c = cid) (checkouts st) of
       None \<Rightarrow> ((404, ErrorBody ''Checkout not found''), st)
     | Some co \<Rightarrow>
         if is_returned co = 1 then
           ((400, ErrorBody ''Book has already been returned''), st)
         else
           let bid = co_book_id co;
               checkouts' = map (\<lambda>c. if checkout_id c = cid
                              then c\<lparr>is_returned := 1, return_date := Some now\<rparr>
                              else c) (checkouts st);
               books' = map (\<lambda>b. if book_id b = bid
                          then b\<lparr>is_booked := Some 0, booked_by_user_id := None,
                                 due_date := None\<rparr>
                          else b) (books st)
           in ((200, ReturnedBody ''Book returned successfully'' cid bid now),
               st\<lparr>checkouts := checkouts', books := books'\<rparr>))"

section \<open>User routes (\<^verbatim>\<open>app/routes/users.py\<close>)\<close>

definition delete_user :: "int \<Rightarrow> db \<Rightarrow> response \<times> db" where
  "delete_user uid st =
    (case find (\<lambda>u. user_id u = uid) (users st) of
       None \<Rightarrow> ((404, ErrorBody ''User not found''), st)
     | Some _ \<Rightarrow>
         ((200, MessageBody ''User deleted successfully''),
          st\<lparr>users := filter (\<lambda>u. user_id u \<noteq> uid) (users st)\<rparr>))"

record user_request =
  req_username :: "string option"
  req_password :: "string option"

text \<open>
  \<^verbatim>\<open>register_user\<close>: the \<^verbatim>\<open>INSERT\<close> raises on the \<^verbatim>\<open>UNIQUE\<close> column
  \<^verbatim>\<open>username\<close>, which the handler answers with 409.
\<close>

definition register_user :: "timestamp \<Rightarrow> user_request \<Rightarrow> db \<Rightarrow> response \<times> db" where
  "register_user current_timestamp data st =
    (case (req_username data, req_password data) of
       (Some name, Some pw) \<Rightarrow>
         if \<exists>u \<in> set (users st). username u = name then
           ((409, ErrorBody ''Username already exists''), st)
         else
           let uid = next_rowid (users_seq st) (map user_id (users st));
               row = \<lparr>user_id = uid, username = name, password = pw,
                      created_at = Some current_timestamp\<rparr>
           in ((201, UserBody ''User registered successfully'' uid name),
               st\<lparr>users := users st @ [row], users_seq := uid\<rparr>)
     | _ \<Rightarrow> ((400, ErrorBody ''Username and password are required''), st))"

definition update_user :: "int \<Rightarrow> user_request \<Rightarrow> db \<Rightarrow> response \<times> db" where
  "update_user uid data st =
    (case (req_username data, req_password data) of
       (Some name, Some pw) \<Rightarrow>
         (case find (\<lambda>u. user_id u = uid) (users st) of
            None \<Rightarrow> ((404, ErrorBody ''User not found''), st)
          | Some _ \<Rightarrow>
              if \<exists>u \<in> set (users st). user_id u \<noteq> uid \<and> username u = name then
                ((409, ErrorBody ''Username already exists''), st)
              else
                ((200, UserBody ''User updated successfully'' uid name),
                 st\<lparr>users := map (\<lambda>u. if user_id u = uid
                                  then u\<lparr>username := name, password := pw\<rparr> else u)
                                (users st)\<rparr>))
     | _ \<Rightarrow> ((400, ErrorBody ''Username and password are required''), st))"

section \<open>Book routes (\<^verbatim>\<open>app/routes/books.py\<close>)\<close>

text \<open>
  The JSON body of \<^verbatim>\<open>PATCH /api/books/<book_id>\<close>, read at the three allowed keys.
  The outer \<open>option\<close> is the presence of the key, the inner one is JSON \<^verbatim>\<open>null\<close>.
  The handler's argument is \<open>None\<close> for a body that Python takes as false (none, or an
  empty object).
\<close>

record book_patch =
  patch_is_booked :: "int option option"
  patch_booked_by_user_id :: "int option option"
  patch_due_date :: "timestamp option option"

definition apply_patch :: "book_patch \<Rightarrow> book \<Rightarrow> book" where
  "apply_patch p b =
     b\<lparr>is_booked := (case patch_is_booked p of None \<Rightarrow> is_booked b | Some v \<Rightarrow> v),
       booked_by_user_id :=
         (case patch_booked_by_user_id p of None \<Rightarrow> booked_by_user_id b | Some v \<Rightarrow> v),
       due_date := (case patch_due_date p of None \<Rightarrow> due_date b | Some v \<Rightarrow> v)\<rparr>"

definition update_book :: "int \<Rightarrow> book_patch option \<Rightarrow> db \<Rightarrow> response \<times> db" where
  "update_book bid data st =
    (case data of
       None \<Rightarrow> ((400, ErrorBody ''No data provided''), st)
     | Some p \<Rightarrow>
         (case find (\<lambda>b. book_id b = bid) (books st) of
            None \<Rightarrow> ((404, ErrorBody ''Book not found''), st)
          | Some bk \<Rightarrow>
              if patch_is_booked p = None \<and> patch_booked_by_user_id p = None
                 \<and> patch_due_date p = None then
                ((400, ErrorBody ''No valid fields to update''), st)
              else
                ((200, BookBody ''Book updated successfully'' (apply_patch p bk)),
                 st\<lparr>books := map (\<lambda>b. if book_id b = bid then apply_patch p b else b)
                                (books st)\<rparr>)))"

section \<open>Homepage routes (\<^verbatim>\<open>app/routes/homepage.py\<close>)\<close>

subsection \<open>Trending\<close>

text \<open>
  The query of \<^verbatim>\<open>get_trending_books\<close>, clause by clause.
  \<^verbatim>\<open>FROM books b LEFT JOIN checkouts c ON b.book_id = c.book_id\<close>: a book with matching
  checkout rows gives one joined row per match, a book with none gives one row whose
  \<^verbatim>\<open>c\<close> columns are all \<^verbatim>\<open>NULL\<close>.
\<close>

definition left_join :: "book list \<Rightarrow> checkout list \<Rightarrow> (book \<times> checkout option) list" where
  "left_join bs cs =
     concat (map (\<lambda>b. case filter (\<lambda>c. co_book_id c = book_id b) cs of
                          [] \<Rightarrow> [(b, None)]
                        | ms \<Rightarrow> map (\<lambda>c. (b, Some c)) ms) bs)"

text \<open>\<^verbatim>\<open>WHERE c.checkout_date >= ? OR c.checkout_date IS NULL\<close>, on a joined row.\<close>

definition where_recent :: "timestamp \<Rightarrow> book \<times> checkout option \<Rightarrow> bool" where
  "where_recent cutoff r =
     (case snd r of
        None \<Rightarrow> True
      | Some c \<Rightarrow> (case checkout_date c of None \<Rightarrow> True | Some d \<Rightarrow> cutoff \<le> d))"

text \<open>
  \<^verbatim>\<open>GROUP BY b.book_id\<close> with \<^verbatim>\<open>COUNT(c.checkout_id)\<close>: one output row for each
  \<^verbatim>\<open>book_id\<close> among the rows that passed \<^verbatim>\<open>WHERE\<close>, with the number of rows of the
  group whose \<^verbatim>\<open>c.checkout_id\<close> is not \<^verbatim>\<open>NULL\<close>.
\<close>

fun group_by_book :: "(book \<times> checkout option) list \<Rightarrow> (book \<times> nat) list" where
  "group_by_book [] = []"
| "group_by_book (r # rs) =
     (fst r, length (filter (\<lambda>r'. book_id (fst r') = book_id (fst r) \<and> snd r' \<noteq> None) (r # rs)))
     # group_by_book (filter (\<lambda>r'. book_id (fst r') \<noteq> book_id (fst r)) rs)"

text \<open>
  \<^verbatim>\<open>ORDER BY checkout_count DESC\<close>. The store leaves the order of equal counts open;
  the model keeps them in the order of the groups (a stable sort).
\<close>

definition trending_ranking :: "timestamp \<Rightarrow> db \<Rightarrow> (book \<times> nat) list" where
  "trending_ranking cutoff st =
     sort_key (\<lambda>g. - int (snd g))
       (group_by_book (filter (where_recent cutoff) (left_join (books st) (checkouts st))))"

definition get_trending_books :: "timestamp \<Rightarrow> db \<Rightarrow> (book \<times> nat) list" where
  "get_trending_books now st = take 5 (trending_ranking (now - seven_days) st)"

subsection \<open>Recommendations\<close>

text \<open>
  \<^verbatim>\<open>ORDER BY c.checkout_date DESC\<close>: SQLite puts \<^verbatim>\<open>NULL\<close> below every value. Rows of
  equal date stay in the order of the scan.
\<close>

definition date_ge :: "timestamp option \<Rightarrow> timestamp option \<Rightarrow> bool" where
  "date_ge a b =
     (case b of None \<Rightarrow> True
      | Some y \<Rightarrow> (case a of None \<Rightarrow> False | Some x \<Rightarrow> y \<le> x))"

fun insert_desc :: "checkout \<times> book \<Rightarrow> (checkout \<times> book) list \<Rightarrow> (checkout \<times> book) list" where
  "insert_desc r [] = [r]"
| "insert_desc r (x # xs) =
     (if date_ge (checkout_date (fst r)) (checkout_date (fst x)) then r # x # xs
      else x # insert_desc r xs)"

definition order_by_checkout_date_desc :: "(checkout \<times> book) list \<Rightarrow> (checkout \<times> book) list" where
  "order_by_checkout_date_desc rs = foldr insert_desc rs []"

text \<open>The first query of \<^verbatim>\<open>get_user_recommendations\<close>: the user's last 3 checkouts.\<close>

definition recent_checkouts :: "db \<Rightarrow> int \<Rightarrow> (checkout \<times> book) list" where
  "recent_checkouts st uid =
     take 3 (order_by_checkout_date_desc
       (concat (map (\<lambda>c. map (\<lambda>b. (c, b)) (filter (\<lambda>b. book_id b = co_book_id c) (books st)))
                    (filter (\<lambda>c. co_user_id c = uid) (checkouts st)))))"

text \<open>The loops that drop repeated books: \<^verbatim>\<open>seen_ids\<close> is the first argument.\<close>

fun unique_books :: "int set \<Rightarrow> book list \<Rightarrow> book list" where
  "unique_books seen_ids [] = []"
| "unique_books seen_ids (b # bs) =
     (if book_id b \<in> seen_ids then unique_books seen_ids bs
      else b # unique_books (insert (book_id b) seen_ids) bs)"

text \<open>\<^verbatim>\<open>SELECT DISTINCT\<close>: each row once, at its first place in the scan.\<close>

definition select_distinct :: "'a list \<Rightarrow> 'a list" where
  "select_distinct xs = rev (remdups (rev xs))"

text \<open>
  The dictionary that \<^verbatim>\<open>get_user_recommendations\<close> returns. \<open>message\<close> is a key of the
  dictionary of a user without history only and \<open>based_on_books\<close> a key of the other one
  only: \<open>None\<close> is a key that the dictionary does not have.
\<close>

record recommendations =
  by_author :: "book list"
  by_year :: "book list"
  similar_users :: "book list"
  message :: "string option"
  based_on_books :: "int list option"

text \<open>
  \<^verbatim>\<open>list(set(...))\<close> lists the members of a Python set in the order of the set's hash
  table, which the language leaves open. The two parameters \<open>author_order\<close> and
  \<open>year_order\<close> are that listing, for sets of strings and of integers.
\<close>

definition get_user_recommendations ::
  "(string list \<Rightarrow> string list) \<Rightarrow> (int list \<Rightarrow> int list) \<Rightarrow> db \<Rightarrow> int \<Rightarrow> recommendations" where
  "get_user_recommendations author_order year_order st uid =
    (let recent = recent_checkouts st uid in
     if recent = [] then
       \<lparr>by_author = [], by_year = [], similar_users = [],
        message = Some ''No checkout history found. Check out some books to get recommendations!'',
        based_on_books = None\<rparr>
     else
       let recent_authors = author_order (filter (\<lambda>a. a \<noteq> []) (map (\<lambda>r. author (snd r)) recent));
           recent_years = year_order
             (concat (map (\<lambda>r. case year_published (snd r) of
                                  None \<Rightarrow> [] | Some y \<Rightarrow> if y = 0 then [] else [y]) recent));
           recent_book_ids = map (\<lambda>r. co_book_id (fst r)) recent;
           authored = concat (map (\<lambda>a. take 5 (filter
                         (\<lambda>b. author b = a \<and> book_id b \<notin> set recent_book_ids) (books st)))
                       recent_authors);
           yeared = concat (map (\<lambda>y. take 5 (filter
                         (\<lambda>b. year_published b = Some y \<and> book_id b \<notin> set recent_book_ids)
                         (books st)))
                       recent_years);
           similar = select_distinct (map co_user_id (filter
                         (\<lambda>c. co_book_id c \<in> set recent_book_ids \<and> co_user_id c \<noteq> uid)
                         (checkouts st)));
           similar_users_books = concat (map (\<lambda>su. take 3 (select_distinct
                         (concat (map (\<lambda>c. filter (\<lambda>b. book_id b = co_book_id c) (books st))
                            (filter (\<lambda>c. co_user_id c = su \<and> co_book_id c \<notin> set recent_book_ids)
                               (checkouts st))))))
                       (take 5 similar))
       in \<lparr>by_author = take 10 (unique_books {} authored),
           by_year = take 10 (unique_books {} yeared),
           similar_users = take 10 (unique_books {} similar_users_books),
           message = None,
           based_on_books = Some recent_book_ids\<rparr>)"

subsection \<open>The \<^verbatim>\<open>by_author\<close> list in the specification's words\<close>

text \<open>
  "De-duplicate by book identity preserving first-seen order": the first book stays and
  its later copies go, and so on down the list.
\<close>

fun first_seen :: "book list \<Rightarrow> book list" where
  "first_seen [] = []"
| "first_seen (b # bs) = b # first_seen (filter (\<lambda>b'. book_id b' \<noteq> book_id b) bs)"

text \<open>
  "For each seed author, up to 5 books by that author excluding the seed books themselves;
  concatenate across authors; de-duplicate; cap at 10", for the seed authors in a given
  order and the seed books' ids.
\<close>

definition by_author_spec :: "string list \<Rightarrow> int list \<Rightarrow> book list \<Rightarrow> book list" where
  "by_author_spec authors seed_ids bs =
     take 10 (first_seen (concat (map
       (\<lambda>a. take 5 (filter (\<lambda>b. author b = a \<and> book_id b \<notin> set seed_ids) bs)) authors)))"

section \<open>Runs of the system\<close>

text \<open>The requests that write to the store, with the clock readings of their handling.\<close>

datatype operation =
  RegisterUser timestamp user_request
| UpdateUser int user_request
| DeleteUser int
| UpdateBook int "book_patch option"
| CheckoutBook timestamp timestamp checkout_request
| ReturnBook timestamp int

fun perform :: "operation \<Rightarrow> db \<Rightarrow> db" where
  "perform (RegisterUser ts data) st = snd (register_user ts data st)"
| "perform (UpdateUser uid data) st = snd (update_user uid data st)"
| "perform (DeleteUser uid) st = snd (delete_user uid st)"
| "perform (UpdateBook bid data) st = snd (update_book bid data st)"
| "perform (CheckoutBook now ts data) st = snd (checkout_book now ts data st)"
| "perform (ReturnBook now cid) st = snd (return_book now cid st)"

fun run :: "operation list \<Rightarrow> db \<Rightarrow> db" where
  "run [] st = st"
| "run (op # ops) st = run ops (perform op st)"

fun is_update_book :: "operation \<Rightarrow> bool" where
  "is_update_book (UpdateBook _ _) = True"
| "is_update_book _ = False"

text \<open>The operations of the availability and checkout engine.\<close>

fun engine_operation :: "operation \<Rightarrow> bool" where
  "engine_operation (CheckoutBook _ _ _) = True"
| "engine_operation (ReturnBook _ _) = True"
| "engine_operation _ = False"

section \<open>Invariants of the store\<close>

text \<open>
  The availability fields of a book row agree: \<^verbatim>\<open>is_booked\<close> is 1 exactly when
  \<^verbatim>\<open>booked_by_user_id\<close> and \<^verbatim>\<open>due_date\<close> are both set, and the two are both
  \<^verbatim>\<open>NULL\<close> exactly when the book is available, that is when \<^verbatim>\<open>is_booked\<close> is not
  1 (the test of \<^verbatim>\<open>checkout_book\<close>). A row with one of the two set and the other
  \<^verbatim>\<open>NULL\<close>, and an available row with a stale holder or due date, do not agree.
\<close>

definition available_fields_ok :: "book \<Rightarrow> bool" where
  "available_fields_ok b \<longleftrightarrow>
     (is_booked b = Some 1 \<longleftrightarrow> booked_by_user_id b \<noteq> None \<and> due_date b \<noteq> None)
   \<and> (is_booked b \<noteq> Some 1 \<longleftrightarrow> booked_by_user_id b = None \<and> due_date b = None)"

definition availability_inv :: "db \<Rightarrow> bool" where
  "availability_inv st \<longleftrightarrow> list_all available_fields_ok (books st)"

text \<open>The number of checkout rows of a book that are not returned.\<close>

definition open_checkouts :: "db \<Rightarrow> int \<Rightarrow> nat" where
  "open_checkouts st bid =
     length (filter (\<lambda>c. co_book_id c = bid \<and> is_returned c = 0) (checkouts st))"

definition ledger_inv :: "db \<Rightarrow> bool" where
  "ledger_inv st \<longleftrightarrow> list_all (\<lambda>c. open_checkouts st (co_book_id c) \<le> 1) (checkouts st)"

text \<open>
  A consistent store: every \<^verbatim>\<open>is_returned\<close> is 0 or 1, no book has two open checkout
  rows, and every book row that an open checkout row names is marked booked.
\<close>

definition flags_ok :: "db \<Rightarrow> bool" where
  "flags_ok st \<longleftrightarrow> list_all (\<lambda>c. is_returned c = 0 \<or> is_returned c = 1) (checkouts st)"

definition open_booked :: "db \<Rightarrow> bool" where
  "open_booked st \<longleftrightarrow>
     list_all (\<lambda>c. is_returned c = 0 \<longrightarrow>
                 list_all (\<lambda>b. book_id b = co_book_id c \<longrightarrow> is_booked b = Some 1) (books st))
              (checkouts st)"

definition consistent :: "db \<Rightarrow> bool" where
  "consistent st \<longleftrightarrow> flags_ok st \<and> ledger_inv st \<and> open_booked st"

section \<open>An example store\<close>

text \<open>
  Two users and four books, nothing checked out. Timestamps count seconds from the
  midnight that starts the example's first day.
\<close>

definition example_user :: "int \<Rightarrow> string \<Rightarrow> user" where
  "example_user i name =
     \<lparr>user_id = i, username = name, password = ''secret'', created_at = Some 0\<rparr>"

definition example_book :: "int \<Rightarrow> string \<Rightarrow> string \<Rightarrow> int \<Rightarrow> book" where
  "example_book i t a y =
     \<lparr>book_id = i, isbn = None, title = t, author = a, year_published = Some y,
      genre = None, image_url = None, is_booked = Some 0, booked_by_user_id = None,
      due_date = None\<rparr>"

definition example_db :: db where
  "example_db =
     \<lparr>users = [example_user 1 ''ann'', example_user 2 ''bob''],
      books = [example_book 1 ''Nineteen Eighty-Four'' ''Orwell'' 1949,
               example_book 2 ''Animal Farm'' ''Orwell'' 1945,
               example_book 3 ''Homage to Catalonia'' ''Orwell'' 1938,
               example_book 4 ''Emma'' ''Austen'' 1815],
      checkouts = [], users_seq = 2, checkouts_seq = 0\<rparr>"

text \<open>
  The example store after user 1 has checked out book 1 at noon of the first day, on a
  server whose clocks agree.
\<close>

definition example_lent :: db where
  "example_lent = snd (checkout_book 43200 43200 (request 1 1) example_db)"

text \<open>
  The example store after user 1 has also checked out book 4 an hour later, and a store
  of two books whose author is the empty string, the first of them checked out by user 1.
\<close>

definition example_two_lent :: db where
  "example_two_lent = snd (checkout_book 46800 46800 (request 4 1) example_lent)"

definition example_unsigned :: db where
  "example_unsigned =
     \<lparr>users = [example_user 1 ''ann''],
      books = [example_book 1 ''Beowulf'' [] 1000, example_book 2 ''Gawain'' [] 1400],
      checkouts = [\<lparr>checkout_id = 1, co_book_id = 1, co_user_id = 1,
                    checkout_date = Some 43200, return_date = None,
                    co_due_date = 648000, is_returned = 0\<rparr>],
      users_seq = 1, checkouts_seq = 1\<rparr>"

text \<open>The body \<^verbatim>\<open>{"is_booked": 1}\<close> of a \<^verbatim>\<open>PATCH\<close> request.\<close>

definition example_patch :: book_patch where
  "example_patch =
     \<lparr>patch_is_booked = Some (Some 1), patch_booked_by_user_id = None, patch_due_date = None\<rparr>"

lemmas example_defs =
  example_user_def example_book_def example_db_def request_def example_lent_def

section \<open>Facts about the store\<close>

lemma find_map_update:
  assumes "\<And>x. key (f x) = key x"
  shows "find (\<lambda>x. key x = k) (map (\<lambda>x. if key x = k then f x else x) xs)
       = map_option f (find (\<lambda>x. key x = k) xs)"
  by (induction xs) (simp_all add: assms)

lemma find_SomeD:
  assumes "find P xs = Some x"
  shows "x \<in> set xs" and "P x"
  using assms by (induction xs) (auto split: if_splits)

lemma foldr_max_ge: "x \<in> set ids \<Longrightarrow> (x::int) \<le> foldr max ids seq"
  by (induction ids) auto

lemma next_rowid_fresh: "x \<in> set ids \<Longrightarrow> x < next_rowid seq ids"
  using foldr_max_ge [of x ids seq] by (simp add: next_rowid_def)

lemma find_append_fresh:
  assumes "\<forall>x \<in> set xs. \<not> P x" and "P y"
  shows "find P (xs @ [y]) = Some y"
  using assms by (induction xs) simp_all

lemma checkout_book_success:
  assumes "find (\<lambda>u. user_id u = uid) (users st) = Some u"
    and "find (\<lambda>b. book_id b = bid) (books st) = Some bk"
    and "is_booked bk \<noteq> Some 1"
  shows "checkout_book now cts (request bid uid) st =
    ((201, CheckedOutBody ''Book checked out successfully''
             (next_rowid (checkouts_seq st) (map checkout_id (checkouts st))) bid uid
             (now + seven_days)),
     st\<lparr>books := map (\<lambda>b. if book_id b = bid
                        then b\<lparr>is_booked := Some 1, booked_by_user_id := Some uid,
                               due_date := Some (now + seven_days)\<rparr>
                        else b) (books st),
        checkouts := checkouts st @
          [\<lparr>checkout_id = next_rowid (checkouts_seq st) (map checkout_id (checkouts st)),
            co_book_id = bid, co_user_id = uid, checkout_date = Some cts,
            return_date = None, co_due_date = now + seven_days, is_returned = 0\<rparr>],
        checkouts_seq := next_rowid (checkouts_seq st) (map checkout_id (checkouts st))\<rparr>)"
  using assms by (simp add: checkout_book_def request_def Let_def)

lemma checkout_book_status_201:
  assumes "fst (fst (checkout_book now cts data st)) = 201"
  shows "\<exists>bid uid u bk. req_book_id data = Some bid \<and> req_user_id data = Some uid
    \<and> find (\<lambda>u. user_id u = uid) (users st) = Some u
    \<and> find (\<lambda>b. book_id b = bid) (books st) = Some bk
    \<and> is_booked bk \<noteq> Some 1"
proof (cases "req_book_id data")
  case None
  with assms show ?thesis by (simp add: checkout_book_def)
next
  case (Some bid)
  note b = this
  show ?thesis
  proof (cases "req_user_id data")
    case None
    with assms b show ?thesis by (simp add: checkout_book_def)
  next
    case (Some uid)
    note u = this
    show ?thesis
    proof (cases "find (\<lambda>u. user_id u = uid) (users st)")
      case None
      with assms b u show ?thesis by (simp add: checkout_book_def)
    next
      case (Some usr)
      note fu = this
      show ?thesis
      proof (cases "find (\<lambda>b. book_id b = bid) (books st)")
        case None
        with assms b u fu show ?thesis by (simp add: checkout_book_def)
      next
        case (Some bk)
        with assms b u fu show ?thesis
          by (cases "is_booked bk = Some 1") (simp_all add: checkout_book_def)
      qed
    qed
  qed
qed

lemma data_is_request:
  "req_book_id data = Some bid \<Longrightarrow> req_user_id data = Some uid \<Longrightarrow> data = request bid uid"
  by (cases data) (simp add: request_def)

lemma set_map_update:
  assumes "b' \<in> set (map (\<lambda>b. if key b = k then f b else b) bs)" and "key b' = k"
    and "\<And>x. key (f x) = key x"
  shows "\<exists>b \<in> set bs. b' = f b"
  using assms by (induction bs) (auto split: if_splits)

lemma checkout_book_twice:
  assumes ok: "fst (fst (checkout_book now1 cts1 (request bid uid1) st)) = 201"
    and u2: "find (\<lambda>u. user_id u = uid2) (users st) = Some u"
  shows "checkout_book now2 cts2 (request bid uid2) (snd (checkout_book now1 cts1 (request bid uid1) st))
       = ((409, UnavailableBody ''Book is not available''
              ''This book is currently checked out by another user'' (Some (now1 + 604800))),
          snd (checkout_book now1 cts1 (request bid uid1) st))"
proof -
  let ?st' = "snd (checkout_book now1 cts1 (request bid uid1) st)"
  from checkout_book_status_201 [OF ok] obtain u1 bk
    where u: "find (\<lambda>u. user_id u = uid1) (users st) = Some u1"
      and b: "find (\<lambda>b. book_id b = bid) (books st) = Some bk"
      and a: "is_booked bk \<noteq> Some 1"
    by (auto simp: request_def)
  let ?upd = "\<lambda>b. b\<lparr>is_booked := Some 1, booked_by_user_id := Some uid1,
                      due_date := Some (now1 + seven_days)\<rparr>"
  note eq = checkout_book_success [OF u b a, of now1 cts1]
  have users': "users ?st' = users st"
    by (simp add: eq)
  have books': "books ?st' = map (\<lambda>b. if book_id b = bid then ?upd b else b) (books st)"
    by (simp add: eq)
  have found: "find (\<lambda>b. book_id b = bid) (books ?st') = Some (?upd bk)"
    unfolding books' using find_map_update [of book_id ?upd bid "books st"] b by simp
  show ?thesis
    using u2 found users' by (simp add: checkout_book_def request_def seven_days_def)
qed

lemma map_update_absent:
  assumes "\<forall>x \<in> set xs. key x \<noteq> k"
  shows "map (\<lambda>x. if key x = k then f x else x) xs = xs"
  using assms by (induction xs) simp_all

lemma map_update_twice:
  "map (\<lambda>x. if key x = k then g x else x) (map (\<lambda>x. if key x = k then f x else x) xs)
   = map (\<lambda>x. if key x = k then (if key (f x) = k then g (f x) else f x) else x) xs"
  by (induction xs) simp_all

lemma checkout_then_return:
  fixes now1 cts1 now2 :: timestamp and st :: db and bid uid :: int
  assumes u: "find (\<lambda>u. user_id u = uid) (users st) = Some u"
    and b: "find (\<lambda>b. book_id b = bid) (books st) = Some bk"
    and a: "is_booked bk \<noteq> Some 1"
  defines "cid \<equiv> next_rowid (checkouts_seq st) (map checkout_id (checkouts st))"
  defines "st1 \<equiv> snd (checkout_book now1 cts1 (request bid uid) st)"
  shows "fst (checkout_book now1 cts1 (request bid uid) st)
           = (201, CheckedOutBody ''Book checked out successfully'' cid bid uid (now1 + seven_days))"
    and "fst (return_book now2 cid st1)
           = (200, ReturnedBody ''Book returned successfully'' cid bid now2)"
    and "books (snd (return_book now2 cid st1))
           = map (\<lambda>b. if book_id b = bid
                       then b\<lparr>is_booked := Some 0, booked_by_user_id := None, due_date := None\<rparr>
                       else b) (books st)"
    and "checkouts (snd (return_book now2 cid st1))
           = checkouts st @ [\<lparr>checkout_id = cid, co_book_id = bid, co_user_id = uid,
                checkout_date = Some cts1, return_date = Some now2,
                co_due_date = now1 + seven_days, is_returned = 1\<rparr>]"
proof -
  let ?row = "\<lparr>checkout_id = cid, co_book_id = bid, co_user_id = uid, checkout_date = Some cts1,
               return_date = None, co_due_date = now1 + seven_days, is_returned = 0\<rparr>"
  let ?upd = "\<lambda>b. b\<lparr>is_booked := Some 1, booked_by_user_id := Some uid,
                      due_date := Some (now1 + seven_days)\<rparr>"
  note eq = checkout_book_success [OF u b a, of now1 cts1, folded cid_def]
  show "fst (checkout_book now1 cts1 (request bid uid) st)
           = (201, CheckedOutBody ''Book checked out successfully'' cid bid uid (now1 + seven_days))"
    by (simp add: eq)
  have cs1: "checkouts st1 = checkouts st @ [?row]"
    by (simp add: st1_def eq)
  have bs1: "books st1 = map (\<lambda>b. if book_id b = bid then ?upd b else b) (books st)"
    by (simp add: st1_def eq)
  have fresh: "\<forall>c \<in> set (checkouts st). checkout_id c \<noteq> cid"
  proof
    fix c assume "c \<in> set (checkouts st)"
    then have "checkout_id c \<in> set (map checkout_id (checkouts st))" by simp
    then have "checkout_id c < cid" unfolding cid_def by (rule next_rowid_fresh)
    then show "checkout_id c \<noteq> cid" by simp
  qed
  have found: "find (\<lambda>c. checkout_id c = cid) (checkouts st1) = Some ?row"
    unfolding cs1 using fresh by (intro find_append_fresh) simp_all
  have old: "map (\<lambda>c. if checkout_id c = cid then c\<lparr>is_returned := 1, return_date := Some now2\<rparr>
                       else c) (checkouts st) = checkouts st"
    using fresh by (rule map_update_absent)
  have ret: "return_book now2 cid st1
      = ((200, ReturnedBody ''Book returned successfully'' cid bid now2),
         st1\<lparr>checkouts := map (\<lambda>c. if checkout_id c = cid
                                  then c\<lparr>is_returned := 1, return_date := Some now2\<rparr>
                                  else c) (checkouts st1),
             books := map (\<lambda>b. if book_id b = bid
                              then b\<lparr>is_booked := Some 0, booked_by_user_id := None,
                                     due_date := None\<rparr>
                              else b) (books st1)\<rparr>)"
    by (simp add: return_book_def found Let_def)
  show "fst (return_book now2 cid st1)
           = (200, ReturnedBody ''Book returned successfully'' cid bid now2)"
    by (simp add: ret)
  show "books (snd (return_book now2 cid st1))
           = map (\<lambda>b. if book_id b = bid
                       then b\<lparr>is_booked := Some 0, booked_by_user_id := None, due_date := None\<rparr>
                       else b) (books st)"
    by (simp add: ret bs1 map_update_twice)
  show "checkouts (snd (return_book now2 cid st1))
           = checkouts st @ [\<lparr>checkout_id = cid, co_book_id = bid, co_user_id = uid,
                checkout_date = Some cts1, return_date = Some now2,
                co_due_date = now1 + seven_days, is_returned = 1\<rparr>]"
    by (simp add: ret cs1 old)
qed

lemma checkout_book_cases:
  obtains (unchanged) "snd (checkout_book now cts data st) = st"
  | (success) bid uid u bk where "data = request bid uid"
      "find (\<lambda>u. user_id u = uid) (users st) = Some u"
      "find (\<lambda>b. book_id b = bid) (books st) = Some bk"
      "is_booked bk \<noteq> Some 1"
proof (cases "fst (fst (checkout_book now cts data st)) = 201")
  case True
  from checkout_book_status_201 [OF True] obtain bid uid u bk
    where "req_book_id data = Some bid" "req_user_id data = Some uid"
      "find (\<lambda>u. user_id u = uid) (users st) = Some u"
      "find (\<lambda>b. book_id b = bid) (books st) = Some bk"
      "is_booked bk \<noteq> Some 1"
    by blast
  then show ?thesis
    using success [of bid uid u bk] data_is_request [of data bid uid] by simp
next
  case False
  then have "snd (checkout_book now cts data st) = st"
    by (simp add: checkout_book_def Let_def split: option.splits if_splits)
  then show ?thesis by (rule unchanged)
qed

lemma return_book_cases:
  obtains (unchanged) "snd (return_book now cid st) = st"
  | (success) co where "find (\<lambda>c. checkout_id c = cid) (checkouts st) = Some co"
      "is_returned co \<noteq> 1"
      "snd (return_book now cid st)
         = st\<lparr>checkouts := map (\<lambda>c. if checkout_id c = cid
                                  then c\<lparr>is_returned := 1, return_date := Some now\<rparr>
                                  else c) (checkouts st),
               books := map (\<lambda>b. if book_id b = co_book_id co
                              then b\<lparr>is_booked := Some 0, booked_by_user_id := None,
                                     due_date := None\<rparr>
                              else b) (books st)\<rparr>"
proof (cases "find (\<lambda>c. checkout_id c = cid) (checkouts st)")
  case None
  then have "snd (return_book now cid st) = st" by (simp add: return_book_def)
  then show ?thesis by (rule unchanged)
next
  case (Some co)
  show ?thesis
  proof (cases "is_returned co = 1")
    case True
    with Some have "snd (return_book now cid st) = st" by (simp add: return_book_def)
    then show ?thesis by (rule unchanged)
  next
    case False
    with Some show ?thesis
      by (intro success [of co]) (simp_all add: return_book_def Let_def)
  qed
qed

lemma user_routes_frame:
  "books (snd (register_user ts data st)) = books st"
  "checkouts (snd (register_user ts data st)) = checkouts st"
  "books (snd (update_user uid data st)) = books st"
  "checkouts (snd (update_user uid data st)) = checkouts st"
  "books (snd (delete_user uid st)) = books st"
  "checkouts (snd (delete_user uid st)) = checkouts st"
  by (simp_all add: register_user_def update_user_def delete_user_def Let_def
      split: option.splits)

lemma list_all_map_update:
  assumes "list_all P xs" and "\<And>x. P x \<Longrightarrow> key x = k \<Longrightarrow> P (f x)"
  shows "list_all P (map (\<lambda>x. if key x = k then f x else x) xs)"
  using assms by (induction xs) simp_all

lemma available_fields_ok_cases:
  "available_fields_ok b \<longleftrightarrow>
     is_booked b = Some 1 \<and> booked_by_user_id b \<noteq> None \<and> due_date b \<noteq> None
   \<or> is_booked b \<noteq> Some 1 \<and> booked_by_user_id b = None \<and> due_date b = None"
  by (auto simp: available_fields_ok_def)

lemma availability_inv_rows:
  assumes "availability_inv st" and "b \<in> set (books st)"
  shows "is_booked b = Some 1 \<and> booked_by_user_id b \<noteq> None \<and> due_date b \<noteq> None
       \<or> is_booked b \<noteq> Some 1 \<and> booked_by_user_id b = None \<and> due_date b = None"
  using assms by (simp add: availability_inv_def list_all_iff available_fields_ok_cases)

lemma available_fields_ok_rejects_stale_fields:
  "\<not> available_fields_ok ((example_book 1 ''Emma'' ''Austen'' 1815)\<lparr>due_date := Some 43200\<rparr>)"
  "\<not> available_fields_ok ((example_book 1 ''Emma'' ''Austen'' 1815)\<lparr>booked_by_user_id := Some 1\<rparr>)"
  "\<not> available_fields_ok ((example_book 1 ''Emma'' ''Austen'' 1815)\<lparr>is_booked := Some 1\<rparr>)"
  by (simp_all add: available_fields_ok_def example_book_def)

lemma availability_inv_frame:
  "books st' = books st \<Longrightarrow> availability_inv st \<Longrightarrow> availability_inv st'"
  by (simp add: availability_inv_def)

lemma availability_inv_checkout_book:
  assumes "availability_inv st"
  shows "availability_inv (snd (checkout_book now cts data st))"
proof (cases rule: checkout_book_cases [of now cts data st])
  case unchanged
  with assms show ?thesis by simp
next
  case (success bid uid u bk)
  note eq = checkout_book_success [OF success(2,3,4), of now cts, folded success(1)]
  have "list_all available_fields_ok
          (map (\<lambda>b. if book_id b = bid
                     then b\<lparr>is_booked := Some 1, booked_by_user_id := Some uid,
                            due_date := Some (now + seven_days)\<rparr>
                     else b) (books st))"
    using assms unfolding availability_inv_def
    by (rule list_all_map_update) (simp add: available_fields_ok_def)
  then show ?thesis
    by (simp add: eq availability_inv_def)
qed

lemma availability_inv_return_book:
  assumes "availability_inv st"
  shows "availability_inv (snd (return_book now cid st))"
proof (cases rule: return_book_cases [of now cid st])
  case unchanged
  with assms show ?thesis by simp
next
  case (success co)
  have "list_all available_fields_ok
          (map (\<lambda>b. if book_id b = co_book_id co
                     then b\<lparr>is_booked := Some 0, booked_by_user_id := None, due_date := None\<rparr>
                     else b) (books st))"
    using assms unfolding availability_inv_def
    by (rule list_all_map_update) (simp add: available_fields_ok_def)
  then show ?thesis
    by (simp add: success(3) availability_inv_def)
qed

lemma availability_inv_perform:
  assumes "availability_inv st" and "\<not> is_update_book op"
  shows "availability_inv (perform op st)"
proof (cases op)
  case (RegisterUser ts data)
  have "books (perform op st) = books st"
    by (simp add: RegisterUser user_routes_frame)
  then show ?thesis using assms(1) by (rule availability_inv_frame)
next
  case (UpdateUser uid data)
  have "books (perform op st) = books st"
    by (simp add: UpdateUser user_routes_frame)
  then show ?thesis using assms(1) by (rule availability_inv_frame)
next
  case (DeleteUser uid)
  have "books (perform op st) = books st"
    by (simp add: DeleteUser user_routes_frame)
  then show ?thesis using assms(1) by (rule availability_inv_frame)
next
  case (UpdateBook bid data)
  with assms show ?thesis by simp
next
  case (CheckoutBook now ts data)
  with assms show ?thesis by (simp add: availability_inv_checkout_book)
next
  case (ReturnBook now cid)
  with assms show ?thesis by (simp add: availability_inv_return_book)
qed

lemma availability_inv_run_general:
  assumes "availability_inv st" and "\<forall>op \<in> set ops. \<not> is_update_book op"
  shows "availability_inv (run ops st)"
  using assms
proof (induction ops arbitrary: st)
  case Nil
  then show ?case by simp
next
  case (Cons op ops)
  then show ?case by (simp add: availability_inv_perform)
qed

lemma at_most_one_eq:
  assumes "length xs \<le> 1" and "x \<in> set xs" and "y \<in> set xs"
  shows "x = y"
proof (cases xs)
  case Nil
  with assms show ?thesis by simp
next
  case (Cons a as)
  with assms have "as = []" by simp
  with Cons assms show ?thesis by simp
qed

lemma ledger_inv_iff: "ledger_inv st \<longleftrightarrow> (\<forall>bid. open_checkouts st bid \<le> 1)"
proof
  assume inv: "ledger_inv st"
  show "\<forall>bid. open_checkouts st bid \<le> 1"
  proof
    fix bid
    show "open_checkouts st bid \<le> 1"
    proof (cases "filter (\<lambda>c. co_book_id c = bid \<and> is_returned c = 0) (checkouts st)")
      case Nil
      then show ?thesis by (simp add: open_checkouts_def)
    next
      case (Cons c cs)
      then have "c \<in> set (filter (\<lambda>c. co_book_id c = bid \<and> is_returned c = 0) (checkouts st))"
        by simp
      then have "c \<in> set (checkouts st)" and "co_book_id c = bid" by simp_all
      with inv show ?thesis by (auto simp: ledger_inv_def list_all_iff)
    qed
  qed
next
  assume "\<forall>bid. open_checkouts st bid \<le> 1"
  then show "ledger_inv st" by (simp add: ledger_inv_def list_all_iff)
qed

lemma length_filter_map_le:
  assumes "\<And>x. P (f x) \<Longrightarrow> Q x"
  shows "length (filter P (map f xs)) \<le> length (filter Q xs)"
proof (induction xs)
  case Nil
  then show ?case by simp
next
  case (Cons x xs)
  then show ?case using assms [of x] by auto
qed

lemma consistent_frame:
  assumes "books st' = books st" and "checkouts st' = checkouts st" and "consistent st"
  shows "consistent st'"
  using assms
  by (simp add: consistent_def flags_ok_def ledger_inv_def open_booked_def open_checkouts_def)

lemma consistent_checkout_book:
  assumes con: "consistent st"
  shows "consistent (snd (checkout_book now cts data st))"
proof (cases rule: checkout_book_cases [of now cts data st])
  case unchanged
  with con show ?thesis by simp
next
  case (success bid uid u bk)
  let ?st' = "snd (checkout_book now cts data st)"
  let ?upd = "\<lambda>b. b\<lparr>is_booked := Some 1, booked_by_user_id := Some uid,
                      due_date := Some (now + seven_days)\<rparr>"
  let ?row = "\<lparr>checkout_id = next_rowid (checkouts_seq st) (map checkout_id (checkouts st)),
               co_book_id = bid, co_user_id = uid, checkout_date = Some cts,
               return_date = None, co_due_date = now + seven_days, is_returned = 0\<rparr>"
  note eq = checkout_book_success [OF success(2,3,4), of now cts, folded success(1)]
  have bs: "books ?st' = map (\<lambda>b. if book_id b = bid then ?upd b else b) (books st)"
    by (simp add: eq)
  have cs: "checkouts ?st' = checkouts st @ [?row]"
    by (simp add: eq)
  from con have fl: "flags_ok st" and le: "\<forall>k. open_checkouts st k \<le> 1" and ob: "open_booked st"
    by (simp_all add: consistent_def ledger_inv_iff)
  have bk: "bk \<in> set (books st)" "book_id bk = bid"
    using find_SomeD [OF success(3)] by simp_all
  have none_open: "open_checkouts st bid = 0"
  proof (rule ccontr)
    assume "open_checkouts st bid \<noteq> 0"
    then obtain c where "c \<in> set (checkouts st)" "co_book_id c = bid" "is_returned c = 0"
      by (auto simp: open_checkouts_def filter_empty_conv)
    with ob bk have "is_booked bk = Some 1"
      by (auto simp: open_booked_def list_all_iff)
    with success(4) show False by simp
  qed
  have flags: "flags_ok ?st'"
    using fl by (simp add: flags_ok_def cs)
  have count: "open_checkouts ?st' k = open_checkouts st k + (if k = bid then 1 else 0)" for k
    by (simp add: open_checkouts_def cs)
  have ledger: "ledger_inv ?st'"
    unfolding ledger_inv_iff using le none_open by (simp add: count)
  have booked: "open_booked ?st'"
    unfolding open_booked_def list_all_iff
  proof (intro ballI impI)
    fix c b
    assume c: "c \<in> set (checkouts ?st')" and op: "is_returned c = 0"
      and b: "b \<in> set (books ?st')" and id: "book_id b = co_book_id c"
    from b obtain b0 where b0: "b0 \<in> set (books st)"
      and bdef: "b = (if book_id b0 = bid then ?upd b0 else b0)"
      unfolding bs by auto
    show "is_booked b = Some 1"
    proof (cases "book_id b0 = bid")
      case True
      with bdef show ?thesis by simp
    next
      case False
      with bdef have same: "b = b0" by simp
      with id False have "co_book_id c \<noteq> bid" by simp
      with c have "c \<in> set (checkouts st)" unfolding cs by auto
      with ob op b0 id same show ?thesis
        by (auto simp: open_booked_def list_all_iff)
    qed
  qed
  from flags ledger booked show ?thesis by (simp add: consistent_def)
qed

lemma consistent_return_book:
  assumes con: "consistent st"
  shows "consistent (snd (return_book now cid st))"
proof (cases rule: return_book_cases [of now cid st])
  case unchanged
  with con show ?thesis by simp
next
  case (success co)
  let ?st' = "snd (return_book now cid st)"
  let ?mark = "\<lambda>c. if checkout_id c = cid
                    then c\<lparr>is_returned := 1, return_date := Some now\<rparr> else c"
  let ?free = "\<lambda>b. if book_id b = co_book_id co
                    then b\<lparr>is_booked := Some 0, booked_by_user_id := None, due_date := None\<rparr>
                    else b"
  have cs: "checkouts ?st' = map ?mark (checkouts st)"
    by (simp add: success(3))
  have bs: "books ?st' = map ?free (books st)"
    by (simp add: success(3))
  from con have fl: "flags_ok st" and le: "\<forall>k. open_checkouts st k \<le> 1" and ob: "open_booked st"
    by (simp_all add: consistent_def ledger_inv_iff)
  have co: "co \<in> set (checkouts st)" "checkout_id co = cid"
    using find_SomeD [OF success(1)] by simp_all
  from fl co(1) success(2) have co_open: "is_returned co = 0"
    by (auto simp: flags_ok_def list_all_iff)
  have flags: "flags_ok ?st'"
    unfolding flags_ok_def cs using fl [unfolded flags_ok_def]
    by (rule list_all_map_update) simp
  have "open_checkouts ?st' k \<le> open_checkouts st k" for k
    unfolding open_checkouts_def cs
    by (rule length_filter_map_le) (simp split: if_splits)
  with le have ledger: "ledger_inv ?st'"
    unfolding ledger_inv_iff by (meson order_trans)
  have booked: "open_booked ?st'"
    unfolding open_booked_def list_all_iff
  proof (intro ballI impI)
    fix c b
    assume c: "c \<in> set (checkouts ?st')" and op: "is_returned c = 0"
      and b: "b \<in> set (books ?st')" and id: "book_id b = co_book_id c"
    from c obtain c0 where c0: "c0 \<in> set (checkouts st)" and cdef: "c = ?mark c0"
      unfolding cs by auto
    from cdef op have other: "checkout_id c0 \<noteq> cid" and same_c: "c = c0"
      by (auto split: if_splits)
    from b obtain b0 where b0: "b0 \<in> set (books st)" and bdef: "b = ?free b0"
      unfolding bs by auto
    show "is_booked b = Some 1"
    proof (cases "book_id b0 = co_book_id co")
      case True
      with bdef id same_c have "co_book_id c0 = co_book_id co" by simp
      with c0 op same_c co(1) co_open
      have "c0 \<in> set (filter (\<lambda>c. co_book_id c = co_book_id co \<and> is_returned c = 0) (checkouts st))"
        and "co \<in> set (filter (\<lambda>c. co_book_id c = co_book_id co \<and> is_returned c = 0) (checkouts st))"
        by simp_all
      moreover from le have "length (filter (\<lambda>c. co_book_id c = co_book_id co \<and> is_returned c = 0)
          (checkouts st)) \<le> 1"
        by (simp add: open_checkouts_def)
      ultimately have "c0 = co" by (intro at_most_one_eq)
      with other co(2) show ?thesis by simp
    next
      case False
      with bdef have "b = b0" by simp
      with ob op b0 id c0 same_c show ?thesis
        by (auto simp: open_booked_def list_all_iff)
    qed
  qed
  from flags ledger booked show ?thesis by (simp add: consistent_def)
qed

lemma consistent_perform:
  assumes "consistent st" and "\<not> is_update_book op"
  shows "consistent (perform op st)"
proof (cases op)
  case (RegisterUser ts data)
  have "books (perform op st) = books st" "checkouts (perform op st) = checkouts st"
    by (simp_all add: RegisterUser user_routes_frame)
  then show ?thesis using assms(1) by (rule consistent_frame)
next
  case (UpdateUser uid data)
  have "books (perform op st) = books st" "checkouts (perform op st) = checkouts st"
    by (simp_all add: UpdateUser user_routes_frame)
  then show ?thesis using assms(1) by (rule consistent_frame)
next
  case (DeleteUser uid)
  have "books (perform op st) = books st" "checkouts (perform op st) = checkouts st"
    by (simp_all add: DeleteUser user_routes_frame)
  then show ?thesis using assms(1) by (rule consistent_frame)
next
  case (UpdateBook bid data)
  with assms show ?thesis by simp
next
  case (CheckoutBook now ts data)
  with assms show ?thesis by (simp add: consistent_checkout_book)
next
  case (ReturnBook now cid)
  with assms show ?thesis by (simp add: consistent_return_book)
qed

lemma consistent_run:
  assumes "consistent st" and "\<forall>op \<in> set ops. \<not> is_update_book op"
  shows "consistent (run ops st)"
  using assms
proof (induction ops arbitrary: st)
  case Nil
  then show ?case by simp
next
  case (Cons op ops)
  then show ?case by (simp add: consistent_perform)
qed

lemma engine_operation_not_update: "engine_operation op \<Longrightarrow> \<not> is_update_book op"
  by (cases op) simp_all

lemma recent_checkouts_no_rows:
  assumes "filter (\<lambda>c. co_user_id c = uid) (checkouts st) = []"
  shows "recent_checkouts st uid = []"
  by (simp add: recent_checkouts_def assms order_by_checkout_date_desc_def)

lemma unique_books_first_seen:
  "unique_books seen bs = first_seen (filter (\<lambda>b. book_id b \<notin> seen) bs)"
proof (induction bs arbitrary: seen)
  case Nil
  then show ?case by simp
next
  case (Cons b bs)
  have "filter (\<lambda>b'. book_id b' \<noteq> book_id b) (filter (\<lambda>b'. book_id b' \<notin> seen) bs)
      = filter (\<lambda>b'. book_id b' \<notin> insert (book_id b) seen) bs"
    by (simp add: conj_commute)
  with Cons show ?case by simp
qed

lemma unique_books_subset: "set (unique_books seen bs) \<subseteq> set bs"
  by (induction bs arbitrary: seen) auto

lemma unique_books_unseen: "b \<in> set (unique_books seen bs) \<Longrightarrow> book_id b \<notin> seen"
  by (induction bs arbitrary: seen) (auto split: if_splits)

lemma unique_books_distinct: "distinct (map book_id (unique_books seen bs))"
proof (induction bs arbitrary: seen)
  case Nil
  then show ?case by simp
next
  case (Cons b bs)
  have "book_id b \<notin> book_id ` set (unique_books (insert (book_id b) seen) bs)"
  proof
    assume "book_id b \<in> book_id ` set (unique_books (insert (book_id b) seen) bs)"
    then obtain x where x: "x \<in> set (unique_books (insert (book_id b) seen) bs)"
      and same: "book_id x = book_id b"
      by auto
    from unique_books_unseen [OF x] same show False by simp
  qed
  with Cons show ?case by simp
qed


lemma by_author_of_recent:
  assumes "recent_checkouts st uid \<noteq> []"
  shows "by_author (get_user_recommendations author_order year_order st uid)
    = take 10 (unique_books {} (concat (map
        (\<lambda>a. take 5 (filter (\<lambda>b. author b = a
                  \<and> book_id b \<notin> set (map (\<lambda>r. co_book_id (fst r)) (recent_checkouts st uid)))
                (books st)))
        (author_order (filter (\<lambda>a. a \<noteq> [])
           (map (\<lambda>r. author (snd r)) (recent_checkouts st uid)))))))"
  using assms by (simp add: get_user_recommendations_def Let_def)

lemma by_author_no_history:
  assumes "recent_checkouts st uid = []"
  shows "by_author (get_user_recommendations author_order year_order st uid) = []"
  using assms by (simp add: get_user_recommendations_def)

lemma by_author_spec_members:
  assumes "b \<in> set (by_author_spec authors seed_ids bs)"
  shows "b \<in> set bs" and "author b \<in> set authors" and "book_id b \<notin> set seed_ids"
proof -
  from assms have "b \<in> set (unique_books {} (concat (map
       (\<lambda>a. take 5 (filter (\<lambda>b. author b = a \<and> book_id b \<notin> set seed_ids) bs)) authors)))"
    by (auto simp: by_author_spec_def unique_books_first_seen dest: in_set_takeD)
  then have "b \<in> set (concat (map
       (\<lambda>a. take 5 (filter (\<lambda>b. author b = a \<and> book_id b \<notin> set seed_ids) bs)) authors))"
    using unique_books_subset by blast
  then obtain a where "a \<in> set authors"
    and "b \<in> set (take 5 (filter (\<lambda>b. author b = a \<and> book_id b \<notin> set seed_ids) bs))"
    by auto
  then have "a \<in> set authors"
    and "b \<in> set (filter (\<lambda>b. author b = a \<and> book_id b \<notin> set seed_ids) bs)"
    by (auto dest: in_set_takeD)
  then show "b \<in> set bs" and "author b \<in> set authors" and "book_id b \<notin> set seed_ids"
    by auto
qed

lemma by_author_spec_distinct: "distinct (map book_id (by_author_spec authors seed_ids bs))"
proof -
  have "distinct (map book_id (take 10 (unique_books {} xs)))" for xs
    by (simp add: take_map [symmetric] unique_books_distinct)
  then show ?thesis
    by (simp add: by_author_spec_def unique_books_first_seen)
qed

lemma by_author_spec_length: "length (by_author_spec authors seed_ids bs) \<le> 10"
  by (simp add: by_author_spec_def)

lemma group_by_book_members:
  assumes "\<forall>r \<in> set rs. \<forall>r' \<in> set rs. book_id (fst r) = book_id (fst r') \<longrightarrow> fst r = fst r'"
  shows "(b, n) \<in> set (group_by_book rs) \<longleftrightarrow>
           (\<exists>co. (b, co) \<in> set rs)
         \<and> n = length (filter (\<lambda>r'. book_id (fst r') = book_id b \<and> snd r' \<noteq> None) rs)"
  using assms
proof (induction rs rule: group_by_book.induct)
  case 1
  then show ?case by simp
next
  case (2 r rs)
  let ?rest = "filter (\<lambda>r'. book_id (fst r') \<noteq> book_id (fst r)) rs"
  let ?count = "\<lambda>k xs. length (filter (\<lambda>r'. book_id (fst r') = k \<and> snd r' \<noteq> None) xs)"
  have same: "fst r' = fst r" if "r' \<in> set (r # rs)" "book_id (fst r') = book_id (fst r)" for r'
    using "2.prems" that by (metis list.set_intros(1))
  have rest_count: "?count k ?rest = ?count k (r # rs)" if "k \<noteq> book_id (fst r)" for k
  proof -
    have "filter (\<lambda>r'. book_id (fst r') = k \<and> snd r' \<noteq> None) ?rest
        = filter (\<lambda>r'. book_id (fst r') = k \<and> snd r' \<noteq> None) rs"
      using that by (simp add: conj_commute) (metis (mono_tags, lifting) filter_cong)
    with that show ?thesis by auto
  qed
  have ih: "(b, n) \<in> set (group_by_book ?rest) \<longleftrightarrow>
      (\<exists>co. (b, co) \<in> set ?rest) \<and> n = ?count (book_id b) ?rest"
    using "2.prems" by (intro "2.IH") auto
  show ?case
  proof (cases "book_id b = book_id (fst r)")
    case True
    then have "\<not> (\<exists>co. (b, co) \<in> set ?rest)" by auto
    with ih have no: "(b, n) \<notin> set (group_by_book ?rest)" by blast
    have "(\<exists>co. (b, co) \<in> set (r # rs)) \<longleftrightarrow> b = fst r"
    proof
      assume "\<exists>co. (b, co) \<in> set (r # rs)"
      then obtain co where "(b, co) \<in> set (r # rs)" ..
      with True same [of "(b, co)"] show "b = fst r" by simp
    next
      assume "b = fst r"
      then have "(b, snd r) \<in> set (r # rs)" by simp
      then show "\<exists>co. (b, co) \<in> set (r # rs)" ..
    qed
    with no True show ?thesis by auto
  next
    case False
    then have "(\<exists>co. (b, co) \<in> set ?rest) \<longleftrightarrow> (\<exists>co. (b, co) \<in> set (r # rs))"
      by auto
    moreover from False have "(b, n) \<in> set (group_by_book (r # rs))
        \<longleftrightarrow> (b, n) \<in> set (group_by_book ?rest)"
      by auto
    ultimately show ?thesis
      using ih rest_count [OF False] by simp
  qed
qed


lemma left_join_rows_of_book:
  assumes "distinct (map book_id bs)" and "b \<in> set bs"
  shows "filter (\<lambda>r. book_id (fst r) = book_id b) (left_join bs cs)
       = (case filter (\<lambda>c. co_book_id c = book_id b) cs of
            [] \<Rightarrow> [(b, None)] | ms \<Rightarrow> map (\<lambda>c. (b, Some c)) ms)"
  using assms
proof (induction bs)
  case Nil
  then show ?case by simp
next
  case (Cons b0 bs)
  let ?rows = "\<lambda>b. case filter (\<lambda>c. co_book_id c = book_id b) cs of
                       [] \<Rightarrow> [(b, None)] | ms \<Rightarrow> map (\<lambda>c. (b, Some c)) ms"
  have own: "filter (\<lambda>r. book_id (fst r) = k) (?rows b') = (if book_id b' = k then ?rows b' else [])"
    for b' k
    by (cases "filter (\<lambda>c. co_book_id c = book_id b') cs") (auto simp: filter_empty_conv)
  have split: "left_join (b0 # bs) cs = ?rows b0 @ left_join bs cs"
    by (simp add: left_join_def)
  have others: "filter (\<lambda>r. book_id (fst r) = k) (left_join bs cs) = []"
    if "k \<notin> book_id ` set bs" for k
    using that by (induction bs) (auto simp: left_join_def filter_empty_conv split: list.splits)
  show ?case
  proof (cases "b = b0")
    case True
    with Cons.prems(1) have "book_id b0 \<notin> book_id ` set bs" by simp
    then show ?thesis unfolding True by (simp add: split own others)
  next
    case False
    with Cons.prems have "b \<in> set bs" and "book_id b0 \<noteq> book_id b" and "distinct (map book_id bs)"
      by auto
    with Cons.IH show ?thesis by (simp add: split own)
  qed
qed

lemma left_join_books: "fst ` set (left_join bs cs) = set bs"
proof -
  have one: "fst ` set (case filter (\<lambda>c. co_book_id c = book_id b) cs of
                     [] \<Rightarrow> [(b, None)] | ms \<Rightarrow> map (\<lambda>c. (b, Some c)) ms) = {b}" for b
    by (cases "filter (\<lambda>c. co_book_id c = book_id b) cs") (auto simp: image_image)
  have "fst ` set (left_join bs cs)
      = (\<Union>b \<in> set bs. fst ` set (case filter (\<lambda>c. co_book_id c = book_id b) cs of
                     [] \<Rightarrow> [(b, None)] | ms \<Rightarrow> map (\<lambda>c. (b, Some c)) ms))"
    unfolding left_join_def by (simp only: set_concat set_map image_UN image_image)
  also have "\<dots> = set bs"
    unfolding one by simp
  finally show ?thesis .
qed


lemma trending_ranking_members:
  assumes "distinct (map book_id (books st))"
  shows "(b, n) \<in> set (trending_ranking cutoff st) \<longleftrightarrow>
      b \<in> set (books st)
    \<and> n = length (filter (\<lambda>c. co_book_id c = book_id b
                \<and> (case checkout_date c of None \<Rightarrow> True | Some d \<Rightarrow> cutoff \<le> d)) (checkouts st))
    \<and> (0 < n \<or> filter (\<lambda>c. co_book_id c = book_id b) (checkouts st) = [])"
proof -
  let ?join = "left_join (books st) (checkouts st)"
  let ?rows = "filter (where_recent cutoff) ?join"
  let ?ms = "filter (\<lambda>c. co_book_id c = book_id b) (checkouts st)"
  let ?in = "\<lambda>c. case checkout_date c of None \<Rightarrow> True | Some d \<Rightarrow> cutoff \<le> d"
  have inj: "inj_on book_id (set (books st))"
    using assms by (simp add: distinct_map)
  have books: "fst r \<in> set (books st)" if "r \<in> set ?rows" for r
    using that left_join_books [of "books st" "checkouts st"] by auto
  have "\<forall>r \<in> set ?rows. \<forall>r' \<in> set ?rows. book_id (fst r) = book_id (fst r') \<longrightarrow> fst r = fst r'"
    using inj books by (meson inj_onD)
  then have group: "(b, n) \<in> set (group_by_book ?rows) \<longleftrightarrow>
      (\<exists>co. (b, co) \<in> set ?rows)
      \<and> n = length (filter (\<lambda>r'. book_id (fst r') = book_id b \<and> snd r' \<noteq> None) ?rows)"
    by (rule group_by_book_members)
  have ranking: "set (trending_ranking cutoff st) = set (group_by_book ?rows)"
    by (simp add: trending_ranking_def)
  have count: "length (filter (\<lambda>c. co_book_id c = book_id b \<and> ?in c) (checkouts st))
      = length (filter ?in ?ms)"
    by (simp add: conj_commute)
  show ?thesis
  proof (cases "b \<in> set (books st)")
    case False
    then have "\<not> (\<exists>co. (b, co) \<in> set ?rows)"
      using books by force
    with False group ranking show ?thesis by simp
  next
    case True
    have of_b: "filter (\<lambda>r. book_id (fst r) = book_id b) ?join
        = (case ?ms of [] \<Rightarrow> [(b, None)] | ms \<Rightarrow> map (\<lambda>c. (b, Some c)) ms)"
      using assms True by (rule left_join_rows_of_book)
    have "filter (\<lambda>r'. book_id (fst r') = book_id b \<and> snd r' \<noteq> None) ?rows
        = filter (\<lambda>r. snd r \<noteq> None \<and> where_recent cutoff r)
            (filter (\<lambda>r. book_id (fst r) = book_id b) ?join)"
      by (simp add: conj_commute conj_left_commute)
    then have n: "length (filter (\<lambda>r'. book_id (fst r') = book_id b \<and> snd r' \<noteq> None) ?rows)
        = length (filter ?in ?ms)"
      unfolding of_b by (cases ?ms) (simp_all add: where_recent_def comp_def)
    have "(\<exists>co. (b, co) \<in> set ?rows)
        \<longleftrightarrow> (\<exists>r \<in> set (filter (\<lambda>r. book_id (fst r) = book_id b) ?join).
               fst r = b \<and> where_recent cutoff r)"
      by force
    also have "\<dots> \<longleftrightarrow> (?ms = [] \<or> 0 < length (filter ?in ?ms))"
      unfolding of_b
      by (cases ?ms) (auto simp: where_recent_def length_greater_0_conv filter_empty_conv
          simp del: length_greater_0_conv)
    finally have ex: "(\<exists>co. (b, co) \<in> set ?rows) \<longleftrightarrow> (?ms = [] \<or> 0 < length (filter ?in ?ms))" .
    show ?thesis
      unfolding ranking group n ex count using True by auto
  qed
qed

section \<open>Deleting a user\<close>

text \<open>
  C10. \<^verbatim>\<open>delete_user\<close> on an existing user answers 200 and removes the rows of
  \<^verbatim>\<open>users\<close> with that id and nothing else: the \<^verbatim>\<open>books\<close> and \<^verbatim>\<open>checkouts\<close> tables
  are the same lists afterwards, so a book held by the deleted user is still marked
  checked out, still names that user in \<^verbatim>\<open>booked_by_user_id\<close>, and the user's checkout
  rows persist.
\<close>

theorem delete_user_frame:
  assumes "find (\<lambda>u. user_id u = uid) (users st) = Some u"
  shows "fst (delete_user uid st) = (200, MessageBody ''User deleted successfully'')
       \<and> books (snd (delete_user uid st)) = books st
       \<and> checkouts (snd (delete_user uid st)) = checkouts st
       \<and> users (snd (delete_user uid st)) = filter (\<lambda>u. user_id u \<noteq> uid) (users st)
       \<and> (\<forall>b \<in> set (books st). booked_by_user_id b = Some uid \<longrightarrow>
            b \<in> set (books (snd (delete_user uid st))))
       \<and> (\<forall>c \<in> set (checkouts st). co_user_id c = uid \<longrightarrow>
            c \<in> set (checkouts (snd (delete_user uid st))))"
  using assms by (simp add: delete_user_def)

theorem delete_user_frame_witness:
  "find (\<lambda>u. user_id u = 1) (users example_lent) = Some (example_user 1 ''ann'')
   \<and> map user_id (users (snd (delete_user 1 example_lent))) = [2]
   \<and> books (snd (delete_user 1 example_lent)) = books example_lent
   \<and> checkouts (snd (delete_user 1 example_lent)) = checkouts example_lent
   \<and> (\<exists>b \<in> set (books (snd (delete_user 1 example_lent))).
         is_booked b = Some 1 \<and> booked_by_user_id b = Some 1)
   \<and> (\<exists>c \<in> set (checkouts (snd (delete_user 1 example_lent))). co_user_id c = 1)"
proof -
  have found: "find (\<lambda>u. user_id u = 1) (users example_lent) = Some (example_user 1 ''ann'')"
    by (simp add: example_defs checkout_book_def Let_def)
  have held: "\<exists>b \<in> set (books example_lent). is_booked b = Some 1 \<and> booked_by_user_id b = Some 1"
    by (simp add: example_defs checkout_book_def Let_def)
  have row: "\<exists>c \<in> set (checkouts example_lent). co_user_id c = 1"
    by (simp add: example_defs checkout_book_def Let_def)
  have left: "map user_id (filter (\<lambda>u. user_id u \<noteq> 1) (users example_lent)) = [2]"
    by (simp add: example_defs checkout_book_def Let_def)
  from delete_user_frame [OF found] found held row left show ?thesis
    by simp
qed

section \<open>Returning twice\<close>

text \<open>
  C6. When the checkout row that \<^verbatim>\<open>return_book\<close> fetches for the id has
  \<^verbatim>\<open>is_returned\<close> equal to 1, the handler answers 400 with the error "Book has already been
  returned" and the store it leaves is the store it was given: no book row and no
  checkout row is altered.
\<close>

theorem return_book_already_returned:
  assumes "find (\<lambda>c. checkout_id c = cid) (checkouts st) = Some co"
    and "is_returned co = 1"
  shows "return_book now cid st = ((400, ErrorBody ''Book has already been returned''), st)"
  using assms by (simp add: return_book_def)

theorem return_book_already_returned_witness:
  "return_book 50000 1 (snd (return_book 43800 1 example_lent))
     = ((400, ErrorBody ''Book has already been returned''), snd (return_book 43800 1 example_lent))
   \<and> fst (fst (return_book 43800 1 example_lent)) = 200"
proof -
  let ?st = "snd (return_book 43800 1 example_lent)"
  let ?co = "\<lparr>checkout_id = 1, co_book_id = 1, co_user_id = 1, checkout_date = Some 43200,
              return_date = Some 43800, co_due_date = 648000, is_returned = 1\<rparr>"
  have found: "find (\<lambda>c. checkout_id c = 1) (checkouts ?st) = Some ?co"
    by (simp add: example_defs checkout_book_def return_book_def next_rowid_def
        seven_days_def Let_def)
  have flag: "is_returned ?co = 1"
    by simp
  have first: "fst (fst (return_book 43800 1 example_lent)) = 200"
    by (simp add: example_defs checkout_book_def return_book_def next_rowid_def
        seven_days_def Let_def)
  from return_book_already_returned [OF found flag, of 50000] first show ?thesis
    by simp
qed

section \<open>The loan period\<close>

text \<open>
  C9. Whenever \<^verbatim>\<open>checkout_book\<close> answers 201 for a request handled at local time
  \<open>now\<close>, the due date in the response, the due date of the one checkout row it appends
  and the due date of every book row with the requested id are the same value,
  \<open>now + 604800\<close>: \<open>now\<close> plus seven days of 86400 seconds.
\<close>

theorem checkout_book_due_date:
  assumes "fst (fst (checkout_book now cts data st)) = 201"
  shows "\<exists>cid bid uid row.
           fst (checkout_book now cts data st)
             = (201, CheckedOutBody ''Book checked out successfully'' cid bid uid (now + 604800))
         \<and> data = request bid uid
         \<and> checkouts (snd (checkout_book now cts data st)) = checkouts st @ [row]
         \<and> checkout_id row = cid \<and> co_book_id row = bid \<and> co_user_id row = uid
         \<and> co_due_date row = now + 604800
         \<and> map_option due_date
              (find (\<lambda>b. book_id b = bid) (books (snd (checkout_book now cts data st))))
             = Some (Some (now + 604800))
         \<and> (\<forall>b \<in> set (books (snd (checkout_book now cts data st))).
               book_id b = bid \<longrightarrow> due_date b = Some (now + 604800))"
proof -
  from checkout_book_status_201 [OF assms] obtain bid uid u bk
    where rb: "req_book_id data = Some bid" and ru: "req_user_id data = Some uid"
      and u: "find (\<lambda>u. user_id u = uid) (users st) = Some u"
      and b: "find (\<lambda>b. book_id b = bid) (books st) = Some bk"
      and a: "is_booked bk \<noteq> Some 1"
    by blast
  have d: "data = request bid uid"
    using rb ru by (rule data_is_request)
  let ?due = "now + seven_days"
  let ?upd = "\<lambda>b. b\<lparr>is_booked := Some 1, booked_by_user_id := Some uid, due_date := Some ?due\<rparr>"
  let ?cid = "next_rowid (checkouts_seq st) (map checkout_id (checkouts st))"
  let ?row = "\<lparr>checkout_id = ?cid, co_book_id = bid, co_user_id = uid, checkout_date = Some cts,
               return_date = None, co_due_date = ?due, is_returned = 0\<rparr>"
  let ?res = "checkout_book now cts data st"
  note eq = checkout_book_success [OF u b a, of now cts, folded d]
  have r1: "fst ?res = (201, CheckedOutBody ''Book checked out successfully'' ?cid bid uid ?due)"
    by (simp add: eq)
  have r2: "checkouts (snd ?res) = checkouts st @ [?row]"
    by (simp add: eq)
  have r3: "books (snd ?res) = map (\<lambda>b. if book_id b = bid then ?upd b else b) (books st)"
    by (simp add: eq)
  have r4: "find (\<lambda>b. book_id b = bid) (books (snd ?res)) = Some (?upd bk)"
    unfolding r3 using find_map_update [of book_id ?upd bid "books st"] b by simp
  have r5: "\<forall>b' \<in> set (books (snd ?res)). book_id b' = bid \<longrightarrow> due_date b' = Some ?due"
  proof (intro ballI impI)
    fix b' assume "b' \<in> set (books (snd ?res))" and "book_id b' = bid"
    then have "\<exists>b \<in> set (books st). b' = ?upd b"
      unfolding r3 by (intro set_map_update [of b' book_id bid ?upd]) simp_all
    then show "due_date b' = Some ?due" by auto
  qed
  have s: "seven_days = 604800" by (simp add: seven_days_def)
  have "fst ?res = (201, CheckedOutBody ''Book checked out successfully'' ?cid bid uid (now + 604800))
         \<and> data = request bid uid
         \<and> checkouts (snd ?res) = checkouts st @ [?row]
         \<and> checkout_id ?row = ?cid \<and> co_book_id ?row = bid \<and> co_user_id ?row = uid
         \<and> co_due_date ?row = now + 604800
         \<and> map_option due_date (find (\<lambda>b. book_id b = bid) (books (snd ?res)))
             = Some (Some (now + 604800))
         \<and> (\<forall>b \<in> set (books (snd ?res)). book_id b = bid \<longrightarrow> due_date b = Some (now + 604800))"
    using r1 r2 r4 r5 d by (simp add: s)
  then show ?thesis by blast
qed

theorem checkout_book_due_date_witness:
  "fst (fst (checkout_book 43200 43200 (request 1 1) example_db)) = 201
   \<and> map co_due_date (checkouts example_lent) = [43200 + 604800]
   \<and> map_option due_date (find (\<lambda>b. book_id b = 1) (books example_lent))
        = Some (Some (43200 + 604800))"
proof -
  have ok: "fst (fst (checkout_book 43200 43200 (request 1 1) example_db)) = 201"
    by (simp add: example_defs checkout_book_def Let_def)
  from checkout_book_due_date [OF ok] ok show ?thesis
    by (simp add: example_lent_def) (simp add: example_defs checkout_book_def Let_def seven_days_def)
qed

section \<open>Refused checkouts\<close>

text \<open>
  C3. \<^verbatim>\<open>checkout_book\<close> answers 404 whenever no user row or no book row has the
  requested id, and leaves the store as it was. When the user exists and the book row has
  \<^verbatim>\<open>is_booked\<close> equal to 1 it answers 409, the store is left as it was, and the body
  carries the \<^verbatim>\<open>due_date\<close> of that book row. When the book was booked by an earlier
  successful \<^verbatim>\<open>checkout_book\<close>, that value is the due date of the earlier checkout.
  The user is looked up first, so a request that names a missing user and a booked book is
  answered 404.
\<close>

theorem checkout_book_failures:
  "(find (\<lambda>u. user_id u = uid) (users st) = None
      \<or> find (\<lambda>b. book_id b = bid) (books st) = None
     \<longrightarrow> fst (fst (checkout_book now cts (request bid uid) st)) = 404
       \<and> snd (checkout_book now cts (request bid uid) st) = st)
   \<and> (find (\<lambda>u. user_id u = uid) (users st) \<noteq> None
        \<and> find (\<lambda>b. book_id b = bid) (books st) = Some bk \<and> is_booked bk = Some 1
     \<longrightarrow> checkout_book now cts (request bid uid) st
           = ((409, UnavailableBody ''Book is not available''
                 ''This book is currently checked out by another user'' (due_date bk)), st))
   \<and> (fst (fst (checkout_book now1 cts1 (request bid uid1) st)) = 201
        \<and> find (\<lambda>u. user_id u = uid) (users st) \<noteq> None
     \<longrightarrow> fst (checkout_book now cts (request bid uid)
                (snd (checkout_book now1 cts1 (request bid uid1) st)))
           = (409, UnavailableBody ''Book is not available''
                 ''This book is currently checked out by another user''
                 (Some (now1 + 604800))))"
proof (intro conjI impI)
  assume "find (\<lambda>u. user_id u = uid) (users st) = None
      \<or> find (\<lambda>b. book_id b = bid) (books st) = None"
  then show "fst (fst (checkout_book now cts (request bid uid) st)) = 404"
    by (auto simp: checkout_book_def request_def split: option.splits)
next
  assume "find (\<lambda>u. user_id u = uid) (users st) = None
      \<or> find (\<lambda>b. book_id b = bid) (books st) = None"
  then show "snd (checkout_book now cts (request bid uid) st) = st"
    by (auto simp: checkout_book_def request_def split: option.splits)
next
  assume "find (\<lambda>u. user_id u = uid) (users st) \<noteq> None
        \<and> find (\<lambda>b. book_id b = bid) (books st) = Some bk \<and> is_booked bk = Some 1"
  then show "checkout_book now cts (request bid uid) st
           = ((409, UnavailableBody ''Book is not available''
                 ''This book is currently checked out by another user'' (due_date bk)), st)"
    by (auto simp: checkout_book_def request_def)
next
  assume "fst (fst (checkout_book now1 cts1 (request bid uid1) st)) = 201
        \<and> find (\<lambda>u. user_id u = uid) (users st) \<noteq> None"
  then obtain u where "fst (fst (checkout_book now1 cts1 (request bid uid1) st)) = 201"
    and "find (\<lambda>u. user_id u = uid) (users st) = Some u"
    by auto
  then show "fst (checkout_book now cts (request bid uid)
                (snd (checkout_book now1 cts1 (request bid uid1) st)))
           = (409, UnavailableBody ''Book is not available''
                 ''This book is currently checked out by another user''
                 (Some (now1 + 604800)))"
    by (simp add: checkout_book_twice)
qed

theorem checkout_book_failures_witness:
  "find (\<lambda>u. user_id u = 9) (users example_db) = None
   \<and> fst (fst (checkout_book 43200 43200 (request 1 9) example_db)) = 404
   \<and> find (\<lambda>b. book_id b = 9) (books example_db) = None
   \<and> fst (fst (checkout_book 43200 43200 (request 9 1) example_db)) = 404
   \<and> find (\<lambda>u. user_id u = 2) (users example_lent) \<noteq> None
   \<and> map_option is_booked (find (\<lambda>b. book_id b = 1) (books example_lent)) = Some (Some 1)
   \<and> fst (fst (checkout_book 43200 43200 (request 1 1) example_db)) = 201
   \<and> fst (checkout_book 50000 50000 (request 1 2) example_lent)
       = (409, UnavailableBody ''Book is not available''
            ''This book is currently checked out by another user'' (Some 648000))"
proof -
  have no_user: "find (\<lambda>u. user_id u = 9) (users example_db) = None"
    by (simp add: example_defs)
  have no_book: "find (\<lambda>b. book_id b = 9) (books example_db) = None"
    by (simp add: example_defs)
  have lent: "fst (fst (checkout_book 43200 43200 (request 1 1) example_db)) = 201"
    by (simp add: example_defs checkout_book_def Let_def)
  have user2: "find (\<lambda>u. user_id u = 2) (users example_db) \<noteq> None"
    by (simp add: example_defs)
  have user2': "find (\<lambda>u. user_id u = 2) (users example_lent) \<noteq> None"
    by (simp add: example_defs checkout_book_def Let_def)
  have booked: "map_option is_booked (find (\<lambda>b. book_id b = 1) (books example_lent))
      = Some (Some 1)"
    by (simp add: example_defs checkout_book_def Let_def)
  from checkout_book_failures [of 9 example_db 1 43200 43200]
    checkout_book_failures [of 1 example_db 9 43200 43200]
    checkout_book_failures [of 2 example_db 1 50000 50000 _ 43200 43200 1]
    no_user no_book lent user2 user2' booked
  show ?thesis
    by (simp add: example_lent_def)
qed

section \<open>Checking out and returning\<close>

text \<open>
  C2. On a server whose local clock is five hours behind UTC, user 1 checks out book 1 of
  the example store at local noon (\<^verbatim>\<open>CURRENT_TIMESTAMP\<close> reads 17:00) and returns it
  ten minutes later. Both requests succeed; the book is available again with holder and
  due date cleared and the checkout row is marked returned. But the row's
  \<^verbatim>\<open>return_date\<close>, written from \<^verbatim>\<open>datetime.now()\<close>, is 12:10, which is before its
  \<^verbatim>\<open>checkout_date\<close>, written by the column default, 17:00. By \<open>checkout_then_return\<close>
  the two values are always the local reading at the return and the UTC reading at the
  checkout, so the return timestamp is at or after the checkout timestamp exactly when the
  former reading is not smaller than the latter.
\<close>

theorem checkout_return_clock_mismatch:
  "fst (fst (checkout_book 43200 61200 (request 1 1) example_db)) = 201
   \<and> fst (return_book 43800 1 (snd (checkout_book 43200 61200 (request 1 1) example_db)))
       = (200, ReturnedBody ''Book returned successfully'' 1 1 43800)
   \<and> books (snd (return_book 43800 1 (snd (checkout_book 43200 61200 (request 1 1) example_db))))
       = books example_db
   \<and> map (\<lambda>c. (checkout_id c, is_returned c, checkout_date c, return_date c))
        (checkouts (snd (return_book 43800 1
           (snd (checkout_book 43200 61200 (request 1 1) example_db)))))
       = [(1, 1, Some 61200, Some 43800)]
   \<and> list_ex (\<lambda>c. case (return_date c, checkout_date c) of
                     (Some r, Some d) \<Rightarrow> r < d | _ \<Rightarrow> False)
        (checkouts (snd (return_book 43800 1
           (snd (checkout_book 43200 61200 (request 1 1) example_db)))))"
  by (simp add: example_defs checkout_book_def return_book_def next_rowid_def Let_def)

section \<open>The availability fields\<close>

text \<open>
  C4, as the code has it. The availability invariant says of every book row that
  \<^verbatim>\<open>is_booked\<close> is 1 exactly when \<^verbatim>\<open>booked_by_user_id\<close> and \<^verbatim>\<open>due_date\<close> are both
  set, and that the two are both \<^verbatim>\<open>NULL\<close> exactly when the book is available; so a
  row is either booked with holder and due date, or available with neither. In every
  store reached from one that satisfies the invariant by registering, updating and
  deleting users, checking out and returning, in any number and order, the invariant
  holds again, and one \<^verbatim>\<open>checkout_book\<close> and one \<^verbatim>\<open>return_book\<close> each preserve it,
  whatever they answer.
\<close>

theorem availability_inv_preserved:
  assumes "availability_inv st" and "\<forall>op \<in> set ops. \<not> is_update_book op"
  shows "availability_inv (run ops st)
       \<and> (\<forall>b \<in> set (books (run ops st)).
             is_booked b = Some 1 \<and> booked_by_user_id b \<noteq> None \<and> due_date b \<noteq> None
           \<or> is_booked b \<noteq> Some 1 \<and> booked_by_user_id b = None \<and> due_date b = None)
       \<and> availability_inv (snd (checkout_book now cts data st))
       \<and> availability_inv (snd (return_book now2 cid st))"
proof -
  from assms have run: "availability_inv (run ops st)"
    by (rule availability_inv_run_general)
  then have "\<forall>b \<in> set (books (run ops st)).
             is_booked b = Some 1 \<and> booked_by_user_id b \<noteq> None \<and> due_date b \<noteq> None
           \<or> is_booked b \<noteq> Some 1 \<and> booked_by_user_id b = None \<and> due_date b = None"
    using availability_inv_rows by blast
  moreover from assms(1) have "availability_inv (snd (checkout_book now cts data st))"
    by (rule availability_inv_checkout_book)
  moreover from assms(1) have "availability_inv (snd (return_book now2 cid st))"
    by (rule availability_inv_return_book)
  ultimately show ?thesis
    using run by blast
qed

theorem availability_inv_preserved_witness:
  "availability_inv example_db
   \<and> list_all (\<lambda>op. \<not> is_update_book op)
         [CheckoutBook 43200 43200 (request 1 1), ReturnBook 43800 1, DeleteUser 2,
          CheckoutBook 50000 50000 (request 2 1)]
   \<and> availability_inv (run [CheckoutBook 43200 43200 (request 1 1), ReturnBook 43800 1,
                             DeleteUser 2, CheckoutBook 50000 50000 (request 2 1)] example_db)
   \<and> map (\<lambda>b. (book_id b, is_booked b, booked_by_user_id b, due_date b))
        (books (run [CheckoutBook 43200 43200 (request 1 1), ReturnBook 43800 1,
                     DeleteUser 2, CheckoutBook 50000 50000 (request 2 1)] example_db))
       = [(1, Some 0, None, None), (2, Some 1, Some 1, Some 654800),
          (3, Some 0, None, None), (4, Some 0, None, None)]
   \<and> availability_inv (snd (checkout_book 43200 43200 (request 1 1) example_db))
   \<and> availability_inv (snd (return_book 43800 1 example_db))"
proof -
  have start: "availability_inv example_db"
    by (simp add: example_defs availability_inv_def available_fields_ok_def)
  have ops: "\<forall>op \<in> set [CheckoutBook 43200 43200 (request 1 1), ReturnBook 43800 1, DeleteUser 2,
                    CheckoutBook 50000 50000 (request 2 1)]. \<not> is_update_book op"
    by simp
  have rows: "map (\<lambda>b. (book_id b, is_booked b, booked_by_user_id b, due_date b))
        (books (run [CheckoutBook 43200 43200 (request 1 1), ReturnBook 43800 1,
                     DeleteUser 2, CheckoutBook 50000 50000 (request 2 1)] example_db))
       = [(1, Some 0, None, None), (2, Some 1, Some 1, Some 654800),
          (3, Some 0, None, None), (4, Some 0, None, None)]"
    by (simp add: example_defs checkout_book_def return_book_def delete_user_def
        next_rowid_def seven_days_def Let_def)
  from availability_inv_preserved [OF start ops, of 43200 43200 "request 1 1" 43800 1]
    start rows
  show ?thesis
    by simp
qed

text \<open>
  The claim as stated fails on \<^verbatim>\<open>update_book\<close>, which writes each of the three columns
  that the body names and no other: \<^verbatim>\<open>PATCH\<close> of book 1 of the example store with
  \<^verbatim>\<open>{"is_booked": 1}\<close> answers 200 and leaves the row booked without holder and
  without due date.
\<close>

theorem update_book_breaks_availability_inv:
  "availability_inv example_db
   \<and> fst (fst (update_book 1 (Some example_patch) example_db)) = 200
   \<and> map (\<lambda>b. (book_id b, is_booked b, booked_by_user_id b, due_date b))
        (books (run [UpdateBook 1 (Some example_patch)] example_db))
       = [(1, Some 1, None, None), (2, Some 0, None, None),
          (3, Some 0, None, None), (4, Some 0, None, None)]
   \<and> \<not> availability_inv (run [UpdateBook 1 (Some example_patch)] example_db)"
  by (simp add: example_defs example_patch_def update_book_def apply_patch_def
      availability_inv_def available_fields_ok_def)

section \<open>The ledger\<close>

text \<open>
  C5. Start from a consistent store: every \<^verbatim>\<open>is_returned\<close> is 0 or 1, no book id has
  two checkout rows with \<^verbatim>\<open>is_returned = 0\<close>, and every book row named by such a row
  has \<^verbatim>\<open>is_booked = 1\<close>. Then after any sequence of checkout and return requests,
  whatever their answers, every book id \<open>bid\<close> is named by at most one checkout row with
  \<^verbatim>\<open>is_returned = 0\<close>, and the store is consistent again; in particular one
  \<^verbatim>\<open>checkout_book\<close> and one \<^verbatim>\<open>return_book\<close> each preserve this.
\<close>

theorem ledger_inv_preserved:
  assumes "consistent st" and "\<forall>op \<in> set ops. engine_operation op"
  shows "open_checkouts (run ops st) bid \<le> 1
       \<and> ledger_inv (run ops st) \<and> consistent (run ops st)
       \<and> open_checkouts (snd (checkout_book now cts data st)) bid \<le> 1
       \<and> open_checkouts (snd (return_book now2 cid st)) bid \<le> 1"
proof -
  from assms(2) have "\<forall>op \<in> set ops. \<not> is_update_book op"
    by (simp add: engine_operation_not_update)
  with assms(1) have "consistent (run ops st)"
    by (rule consistent_run)
  moreover from assms(1) have "consistent (snd (checkout_book now cts data st))"
    by (rule consistent_checkout_book)
  moreover from assms(1) have "consistent (snd (return_book now2 cid st))"
    by (rule consistent_return_book)
  ultimately show ?thesis
    by (simp add: consistent_def ledger_inv_iff)
qed

theorem ledger_inv_preserved_witness:
  "consistent example_lent
   \<and> list_all engine_operation
         [CheckoutBook 50000 50000 (request 1 2), ReturnBook 50100 1,
          CheckoutBook 50200 50200 (request 1 2)]
   \<and> open_checkouts (run [CheckoutBook 50000 50000 (request 1 2), ReturnBook 50100 1,
                           CheckoutBook 50200 50200 (request 1 2)] example_lent) 1 = 1
   \<and> open_checkouts example_lent 1 = 1
   \<and> open_checkouts (snd (checkout_book 50000 50000 (request 1 2) example_lent)) 1 \<le> 1
   \<and> open_checkouts (snd (return_book 50100 1 example_lent)) 1 \<le> 1"
proof -
  have start: "consistent example_lent"
    by (simp add: example_defs checkout_book_def Let_def consistent_def flags_ok_def
        ledger_inv_def open_booked_def open_checkouts_def)
  have ops: "\<forall>op \<in> set [CheckoutBook 50000 50000 (request 1 2), ReturnBook 50100 1,
                    CheckoutBook 50200 50200 (request 1 2)]. engine_operation op"
    by simp
  have before: "open_checkouts example_lent 1 = 1"
    by (simp add: example_defs checkout_book_def Let_def open_checkouts_def)
  have after: "open_checkouts (run [CheckoutBook 50000 50000 (request 1 2), ReturnBook 50100 1,
                           CheckoutBook 50200 50200 (request 1 2)] example_lent) 1 = 1"
    by (simp add: example_defs checkout_book_def return_book_def next_rowid_def Let_def
        open_checkouts_def)
  from ledger_inv_preserved [OF start ops, of 1 50000 50000 "request 1 2" 50100 1]
    start before after
  show ?thesis by simp
qed

text \<open>
  The third condition of a consistent store is needed. \<^verbatim>\<open>checkout_book\<close> decides on
  \<^verbatim>\<open>is_booked\<close> alone: in a store with an open checkout row for book 1 whose book row
  is not marked booked (the sample data of \<^verbatim>\<open>create_sample_checkouts\<close> is of this
  kind), a checkout of book 1 succeeds and leaves two open rows.
\<close>

lemma ledger_inv_needs_booked_flag:
  "ledger_inv (example_db\<lparr>checkouts := [\<lparr>checkout_id = 1, co_book_id = 1, co_user_id = 1,
        checkout_date = Some 43200, return_date = None, co_due_date = 648000,
        is_returned = 0\<rparr>]\<rparr>)
   \<and> open_checkouts (snd (checkout_book 50000 50000 (request 1 2)
        (example_db\<lparr>checkouts := [\<lparr>checkout_id = 1, co_book_id = 1, co_user_id = 1,
           checkout_date = Some 43200, return_date = None, co_due_date = 648000,
           is_returned = 0\<rparr>]\<rparr>))) 1 = 2"
  by (simp add: example_defs checkout_book_def Let_def ledger_inv_def open_checkouts_def)

section \<open>Recommendations without history\<close>

text \<open>
  C7, as the code has it. For a user that no checkout row names,
  \<^verbatim>\<open>get_user_recommendations\<close> returns, without an error, a dictionary whose
  \<^verbatim>\<open>by_author\<close>, \<^verbatim>\<open>by_year\<close> and \<^verbatim>\<open>similar_users\<close> are empty lists and whose
  \<^verbatim>\<open>message\<close> explains that there is no checkout history. That dictionary has no
  \<^verbatim>\<open>based_on_books\<close> key: the list of seed books is absent, not empty.
\<close>

theorem recommendations_without_history:
  assumes "\<forall>c \<in> set (checkouts st). co_user_id c \<noteq> uid"
  shows "get_user_recommendations author_order year_order st uid =
    \<lparr>by_author = [], by_year = [], similar_users = [],
     message = Some ''No checkout history found. Check out some books to get recommendations!'',
     based_on_books = None\<rparr>"
proof -
  from assms have "filter (\<lambda>c. co_user_id c = uid) (checkouts st) = []"
    by (simp add: filter_empty_conv)
  then have "recent_checkouts st uid = []"
    by (rule recent_checkouts_no_rows)
  then show ?thesis
    by (simp add: get_user_recommendations_def)
qed

theorem recommendations_without_history_witness:
  "filter (\<lambda>c. co_user_id c = 2) (checkouts example_lent) = []
   \<and> checkouts example_lent \<noteq> []
   \<and> by_author (get_user_recommendations remdups remdups example_lent 2) = []
   \<and> by_year (get_user_recommendations remdups remdups example_lent 2) = []
   \<and> similar_users (get_user_recommendations remdups remdups example_lent 2) = []
   \<and> message (get_user_recommendations remdups remdups example_lent 2)
       = Some ''No checkout history found. Check out some books to get recommendations!''
   \<and> based_on_books (get_user_recommendations remdups remdups example_lent 2) = None"
proof -
  have none: "\<forall>c \<in> set (checkouts example_lent). co_user_id c \<noteq> 2"
    by (simp add: example_defs checkout_book_def Let_def)
  have some: "checkouts example_lent \<noteq> []"
    by (simp add: example_defs checkout_book_def Let_def)
  from recommendations_without_history [OF none, of remdups remdups] none some
  show ?thesis by (simp add: filter_empty_conv)
qed

text \<open>
  The claim as stated counts the seed list among four empty fields. User 2 of the example
  store has no checkout row, and the result for that user has no seed list at all.
\<close>

theorem recommendations_without_history_seed_key_absent:
  "filter (\<lambda>c. co_user_id c = 2) (checkouts example_lent) = []
   \<and> based_on_books (get_user_recommendations remdups remdups example_lent 2) \<noteq> Some []"
  by (simp add: example_defs checkout_book_def Let_def get_user_recommendations_def
      recent_checkouts_def order_by_checkout_date_desc_def)

section \<open>Recommendations by author\<close>

text \<open>
  C8, as the code has it. Let the seeds be the rows of the first query (the user's last
  three checkouts, joined with their books) and let Python list the members of a set
  once each. Then \<^verbatim>\<open>by_author\<close> is the list that the specification describes, taken
  over the distinct non-empty authors of the seed books: up to 5 books per author that
  are not seed books, concatenated, each book id kept at its first place only, cut to 10.
  No book of the list has the id of a seed book, no book id occurs twice, and the list has
  at most 10 entries. A user without seeds gets the empty list, which is the same
  computation over no author.
\<close>

theorem by_author_computed:
  assumes "\<forall>xs. distinct (author_order xs) \<and> set (author_order xs) = set xs"
  shows "\<exists>authors.
      distinct authors
    \<and> set authors = {a. a \<noteq> [] \<and> a \<in> (\<lambda>r. author (snd r)) ` set (recent_checkouts st uid)}
    \<and> by_author (get_user_recommendations author_order year_order st uid)
        = by_author_spec authors (map (\<lambda>r. co_book_id (fst r)) (recent_checkouts st uid))
            (books st)
    \<and> (\<forall>b \<in> set (by_author (get_user_recommendations author_order year_order st uid)).
          book_id b \<notin> (\<lambda>r. co_book_id (fst r)) ` set (recent_checkouts st uid))
    \<and> distinct (map book_id (by_author (get_user_recommendations author_order year_order st uid)))
    \<and> length (by_author (get_user_recommendations author_order year_order st uid)) \<le> 10"
proof -
  let ?recent = "recent_checkouts st uid"
  let ?ids = "map (\<lambda>r. co_book_id (fst r)) ?recent"
  let ?authors = "author_order (filter (\<lambda>a. a \<noteq> []) (map (\<lambda>r. author (snd r)) ?recent))"
  let ?R = "get_user_recommendations author_order year_order st uid"
  from assms have d: "distinct ?authors"
    and s: "set ?authors = set (filter (\<lambda>a. a \<noteq> []) (map (\<lambda>r. author (snd r)) ?recent))"
    by simp_all
  from s have s': "set ?authors = {a. a \<noteq> [] \<and> a \<in> (\<lambda>r. author (snd r)) ` set ?recent}"
    by auto
  have eq: "by_author ?R = by_author_spec ?authors ?ids (books st)"
  proof (cases "?recent = []")
    case True
    with s have "?authors = []" by simp
    with True show ?thesis
      by (simp add: by_author_no_history by_author_spec_def)
  next
    case False
    then show ?thesis
      by (simp add: by_author_of_recent by_author_spec_def unique_books_first_seen)
  qed
  have "\<forall>b \<in> set (by_author ?R). book_id b \<notin> (\<lambda>r. co_book_id (fst r)) ` set ?recent"
    unfolding eq using by_author_spec_members(3) [of _ ?authors ?ids "books st"] by auto
  moreover have "distinct (map book_id (by_author ?R))"
    unfolding eq by (rule by_author_spec_distinct)
  moreover have "length (by_author ?R) \<le> 10"
    unfolding eq by (rule by_author_spec_length)
  ultimately show ?thesis
    using d s' eq by blast
qed

theorem by_author_computed_witness:
  "(\<forall>xs :: string list. distinct (remdups xs) \<and> set (remdups xs) = set xs)
   \<and> map (\<lambda>r. co_book_id (fst r)) (recent_checkouts example_two_lent 1) = [4, 1]
   \<and> map book_id (by_author (get_user_recommendations remdups remdups example_two_lent 1))
       = [2, 3]
   \<and> (\<exists>authors. distinct authors \<and> set authors = {''Austen'', ''Orwell''}
        \<and> by_author (get_user_recommendations remdups remdups example_two_lent 1)
            = by_author_spec authors [4, 1] (books example_two_lent))"
proof -
  have order: "\<forall>xs :: string list. distinct (remdups xs) \<and> set (remdups xs) = set xs"
    by simp
  have recent: "map (\<lambda>r. (co_book_id (fst r), author (snd r)))
      (recent_checkouts example_two_lent 1) = [(4, ''Austen''), (1, ''Orwell'')]"
    by (simp add: example_defs example_two_lent_def checkout_book_def next_rowid_def Let_def
        recent_checkouts_def order_by_checkout_date_desc_def date_ge_def seven_days_def)
  have ids: "map (\<lambda>r. co_book_id (fst r)) (recent_checkouts example_two_lent 1) = [4, 1]"
    using arg_cong [OF recent, of "map fst"] by (simp add: comp_def)
  have names: "map (\<lambda>r. author (snd r)) (recent_checkouts example_two_lent 1)
      = [''Austen'', ''Orwell'']"
    using arg_cong [OF recent, of "map snd"] by (simp add: comp_def)
  have authors: "{a. a \<noteq> [] \<and> a \<in> (\<lambda>r. author (snd r)) ` set (recent_checkouts example_two_lent 1)}
      = {''Austen'', ''Orwell''}"
    using arg_cong [OF names, of set] by auto
  have result: "map book_id
      (by_author (get_user_recommendations remdups remdups example_two_lent 1)) = [2, 3]"
    by (simp add: example_defs example_two_lent_def checkout_book_def next_rowid_def Let_def
        recent_checkouts_def order_by_checkout_date_desc_def date_ge_def seven_days_def
        get_user_recommendations_def select_distinct_def)
  from by_author_computed [OF order, of example_two_lent 1 remdups]
  show ?thesis
    unfolding authors ids using order ids result by blast
qed

text \<open>
  The claim as stated takes every distinct author of the seed books. The code drops an
  author that Python takes as false (\<^verbatim>\<open>if c['author']\<close>), that is the empty string:
  with book 1 of \<open>example_unsigned\<close> as the seed, the computation over every seed
  author yields book 2, which has the same (empty) author, and the code yields nothing.
\<close>

theorem by_author_skips_empty_author:
  "map (\<lambda>r. author (snd r)) (recent_checkouts example_unsigned 1) = [[]]
   \<and> by_author (get_user_recommendations remdups remdups example_unsigned 1) = []
   \<and> map book_id (by_author_spec
        (remdups (map (\<lambda>r. author (snd r)) (recent_checkouts example_unsigned 1)))
        (map (\<lambda>r. co_book_id (fst r)) (recent_checkouts example_unsigned 1))
        (books example_unsigned)) = [2]"
  by (simp add: example_unsigned_def example_user_def example_book_def
      get_user_recommendations_def recent_checkouts_def order_by_checkout_date_desc_def
      by_author_spec_def select_distinct_def Let_def)

section \<open>Trending\<close>

text \<open>
  C1. Book 1 of \<open>example_lent\<close> was checked out once, at noon of the first day; the
  other three books never. Eight days later the cutoff of the trailing window lies after
  that checkout. The ranking that \<^verbatim>\<open>get_trending_books\<close> computes then has books 2, 3
  and 4 with count 0 and does not have book 1, before and after \<^verbatim>\<open>LIMIT 5\<close>: the
  joined row of book 1 has a \<^verbatim>\<open>checkout_date\<close> that is neither \<^verbatim>\<open>NULL\<close> nor inside the
  window, \<^verbatim>\<open>WHERE\<close> drops it, and no row of book 1 is left to group.
  In general (\<open>trending_ranking_members\<close>) the ranking holds exactly the books that
  have a checkout inside the window or no checkout row at all, each with the number of its
  checkouts inside the window.
\<close>

theorem trending_omits_book_with_old_checkouts:
  "map book_id (books example_lent) = [1, 2, 3, 4]
   \<and> map (\<lambda>c. (co_book_id c, checkout_date c)) (checkouts example_lent) = [(1, Some 43200)]
   \<and> map (\<lambda>g. (book_id (fst g), snd g)) (trending_ranking (734400 - 604800) example_lent)
       = [(2, 0), (3, 0), (4, 0)]
   \<and> map (\<lambda>g. (book_id (fst g), snd g)) (get_trending_books 734400 example_lent)
       = [(2, 0), (3, 0), (4, 0)]"
  by (simp add: example_defs checkout_book_def Let_def next_rowid_def seven_days_def
      get_trending_books_def trending_ranking_def left_join_def where_recent_def)

end
